theory Spec2Isabelle
  imports Complex_Main
begin

section \<open>Python values used by the interpolators\<close>

text \<open>
  The interpolators of \<^verbatim>\<open>devito/operations/interpolators.py\<close> build lists of symbolic
  equations. The Python constructs they rely on (list indexing with negative indices,
  insertion-ordered dictionaries, \<^verbatim>\<open>range\<close>, \<^verbatim>\<open>itertools.product\<close>, exceptions) are
  written out here; an exception is the \<open>Inl\<close> branch of a sum.
\<close>

datatype py_error = IndexError | KeyError | AssertionError | NotImplementedError | TypeError

definition bind_err :: "py_error + 'a \<Rightarrow> ('a \<Rightarrow> py_error + 'b) \<Rightarrow> py_error + 'b" where
  "bind_err m f = (case m of Inl e \<Rightarrow> Inl e | Inr x \<Rightarrow> f x)"

text \<open>Evaluating the elements of a list left to right; the first exception wins.\<close>

fun sequence_err :: "(py_error + 'a) list \<Rightarrow> py_error + 'a list" where
  "sequence_err [] = Inr []"
| "sequence_err (m # ms) =
     (case m of Inl e \<Rightarrow> Inl e
      | Inr x \<Rightarrow> (case sequence_err ms of Inl e \<Rightarrow> Inl e | Inr xs \<Rightarrow> Inr (x # xs)))"

text \<open>\<^verbatim>\<open>range(lo, hi)\<close> on Python integers.\<close>

definition range_py :: "int \<Rightarrow> int \<Rightarrow> int list" where
  "range_py lo hi = [lo..hi - 1]"

text \<open>\<^verbatim>\<open>xs[i]\<close> on a Python list: a negative index counts from the end, an index out of
  range raises \<^verbatim>\<open>IndexError\<close>.\<close>

definition list_pos :: "nat \<Rightarrow> int \<Rightarrow> nat" where
  "list_pos n i = (if i < 0 then nat (int n + i) else nat i)"

definition getitem :: "'a list \<Rightarrow> int \<Rightarrow> py_error + 'a" where
  "getitem xs i =
     (if - int (length xs) \<le> i \<and> i < int (length xs)
      then Inr (xs ! list_pos (length xs) i) else Inl IndexError)"

text \<open>\<^verbatim>\<open>itertools.product(xs, repeat=n)\<close>: the first component is the outermost loop, the
  last one varies fastest.\<close>

fun product_repeat :: "'a list \<Rightarrow> nat \<Rightarrow> 'a list list" where
  "product_repeat xs 0 = [[]]"
| "product_repeat xs (Suc n) = concat (map (\<lambda>x. map ((#) x) (product_repeat xs n)) xs)"

text \<open>A Python \<^verbatim>\<open>dict\<close> as an association list in insertion order: storing under a key
  that is present replaces the value and keeps the key's place.\<close>

fun dict_set :: "('k \<times> 'v) list \<Rightarrow> 'k \<Rightarrow> 'v \<Rightarrow> ('k \<times> 'v) list" where
  "dict_set [] k v = [(k, v)]"
| "dict_set ((k', v') # m) k v =
     (if k' = k then (k, v) # m else (k', v') # dict_set m k v)"

definition dict_of :: "('k \<times> 'v) list \<Rightarrow> ('k \<times> 'v) list" where
  "dict_of kvs = foldl (\<lambda>m (k, v). dict_set m k v) [] kvs"

definition dict_get :: "('k \<times> 'v) list \<Rightarrow> 'k \<Rightarrow> py_error + 'v" where
  "dict_get m k = (case map_of m k of None \<Rightarrow> Inl KeyError | Some v \<Rightarrow> Inr v)"

definition dict_values :: "('k \<times> 'v) list \<Rightarrow> 'v list" where
  "dict_values m = map snd m"

text \<open>\<^verbatim>\<open>'%d' % n\<close> for a non-negative integer.\<close>

definition digit :: "nat \<Rightarrow> char" where
  "digit n = (''0123456789'' ! (n mod 10))"

function decimal :: "nat \<Rightarrow> string" where
  "decimal n = (if n < 10 then [digit n] else decimal (n div 10) @ [digit n])"
  by pat_completeness auto
termination
  by (relation "measure id") auto

section \<open>Symbolic expressions\<close>

text \<open>
  The symbolic objects come from SymPy and from \<^verbatim>\<open>devito.types\<close>; the interpolators only
  construct them and substitute in them. They are kept as the syntax trees the source
  builds, without SymPy's canonicalisation.

  A dimension is identified by its name. \<open>Symbolic_min d\<close>, \<open>Symbolic_max d\<close> and
  \<open>Spacing d\<close> stand for \<^verbatim>\<open>d.symbolic_min\<close>, \<^verbatim>\<open>d.symbolic_max\<close> and \<^verbatim>\<open>d.spacing\<close>.
  \<open>Fn f indices origin\<close> is a function carrier: an access to the discrete function \<open>f\<close>
  at \<open>indices\<close>, with the dictionary \<^verbatim>\<open>origin\<close> of the function (its stagger offset per
  dimension). \<open>Eq\<close> and \<open>Inc\<close> carry left-hand side, right-hand side and
  \<^verbatim>\<open>implicit_dims\<close>; \<^verbatim>\<open>Inc\<close> is a subclass of \<^verbatim>\<open>Eq\<close>.
\<close>

type_synonym dimension = string

datatype expr =
    Num int
  | Float rat
  | Symbol string "string option"
  | Dim dimension
  | Symbolic_min dimension
  | Symbolic_max dimension
  | Spacing dimension
  | ConditionalDimension string dimension expr bool
  | Add expr expr
  | Sub expr expr
  | Mul expr expr
  | Div expr expr
  | Ge expr expr
  | Le expr expr
  | And "expr list"
  | INT_cast expr
  | Floor expr
  | Fn string "expr list" "(dimension \<times> expr) list"
  | Eq expr expr "dimension list"
  | Inc expr expr "dimension list"

text \<open>\<^verbatim>\<open>isinstance(i, Eq)\<close>.\<close>

fun isinstance_Eq :: "expr \<Rightarrow> bool" where
  "isinstance_Eq (Eq l r ds) = True"
| "isinstance_Eq (Inc l r ds) = True"
| "isinstance_Eq e = False"

text \<open>\<^verbatim>\<open>v.origin.get(k, 0)\<close>; only a function carrier has an origin.\<close>

fun origin :: "expr \<Rightarrow> (dimension \<times> expr) list" where
  "origin (Fn f idx org) = org"
| "origin e = []"

definition origin_get :: "expr \<Rightarrow> dimension \<Rightarrow> expr" where
  "origin_get v k = (case map_of (origin v) k of None \<Rightarrow> Num 0 | Some e \<Rightarrow> e)"

text \<open>Modelled from the spec: \<^verbatim>\<open>v.subs({k: e, ...})\<close> with dimensions as keys rebinds each
  dense dimension that occurs in the operand to the given index. Dimensions are atoms;
  the arguments of every other node are visited. The origin of a carrier is an attribute
  of the function, not an argument, and is not visited.\<close>

fun subs :: "(dimension \<times> expr) list \<Rightarrow> expr \<Rightarrow> expr" where
  "subs s (Dim d) = (case map_of s d of None \<Rightarrow> Dim d | Some e \<Rightarrow> e)"
| "subs s (Add a b) = Add (subs s a) (subs s b)"
| "subs s (Sub a b) = Sub (subs s a) (subs s b)"
| "subs s (Mul a b) = Mul (subs s a) (subs s b)"
| "subs s (Div a b) = Div (subs s a) (subs s b)"
| "subs s (Ge a b) = Ge (subs s a) (subs s b)"
| "subs s (Le a b) = Le (subs s a) (subs s b)"
| "subs s (And cs) = And (map (subs s) cs)"
| "subs s (INT_cast a) = INT_cast (subs s a)"
| "subs s (Floor a) = Floor (subs s a)"
| "subs s (Fn f idx org) = Fn f (map (subs s) idx) org"
| "subs s (Eq l r ds) = Eq (subs s l) (subs s r) ds"
| "subs s (Inc l r ds) = Inc (subs s l) (subs s r) ds"
| "subs s e = e"

text \<open>Modelled from the spec: \<^verbatim>\<open>e.xreplace(rule)\<close> replaces every node that is a key of
  \<open>rule\<close> by its value, from the root downwards, without visiting what it put in.\<close>

fun xreplace :: "(expr \<times> expr) list \<Rightarrow> expr \<Rightarrow> expr" where
  "xreplace rule e =
     (case map_of rule e of Some e' \<Rightarrow> e'
      | None \<Rightarrow>
        (case e of
           Add a b \<Rightarrow> Add (xreplace rule a) (xreplace rule b)
         | Sub a b \<Rightarrow> Sub (xreplace rule a) (xreplace rule b)
         | Mul a b \<Rightarrow> Mul (xreplace rule a) (xreplace rule b)
         | Div a b \<Rightarrow> Div (xreplace rule a) (xreplace rule b)
         | Ge a b \<Rightarrow> Ge (xreplace rule a) (xreplace rule b)
         | Le a b \<Rightarrow> Le (xreplace rule a) (xreplace rule b)
         | And cs \<Rightarrow> And (map (xreplace rule) cs)
         | INT_cast a \<Rightarrow> INT_cast (xreplace rule a)
         | Floor a \<Rightarrow> Floor (xreplace rule a)
         | Fn f idx org \<Rightarrow> Fn f (map (xreplace rule) idx) org
         | Eq l r ds \<Rightarrow> Eq (xreplace rule l) (xreplace rule r) ds
         | Inc l r ds \<Rightarrow> Inc (xreplace rule l) (xreplace rule r) ds
         | _ \<Rightarrow> e))"

declare xreplace.simps [simp del]

text \<open>Modelled from the spec: \<^verbatim>\<open>retrieve_function_carriers\<close> lists all field/array
  operands referenced in an expression, in depth-first order.\<close>

fun retrieve_function_carriers :: "expr \<Rightarrow> expr list" where
  "retrieve_function_carriers (Fn f idx org) =
     Fn f idx org # concat (map retrieve_function_carriers idx)"
| "retrieve_function_carriers (Add a b) =
     retrieve_function_carriers a @ retrieve_function_carriers b"
| "retrieve_function_carriers (Sub a b) =
     retrieve_function_carriers a @ retrieve_function_carriers b"
| "retrieve_function_carriers (Mul a b) =
     retrieve_function_carriers a @ retrieve_function_carriers b"
| "retrieve_function_carriers (Div a b) =
     retrieve_function_carriers a @ retrieve_function_carriers b"
| "retrieve_function_carriers (Ge a b) =
     retrieve_function_carriers a @ retrieve_function_carriers b"
| "retrieve_function_carriers (Le a b) =
     retrieve_function_carriers a @ retrieve_function_carriers b"
| "retrieve_function_carriers (And cs) = concat (map retrieve_function_carriers cs)"
| "retrieve_function_carriers (INT_cast a) = retrieve_function_carriers a"
| "retrieve_function_carriers (Floor a) = retrieve_function_carriers a"
| "retrieve_function_carriers (Eq l r ds) =
     retrieve_function_carriers l @ retrieve_function_carriers r"
| "retrieve_function_carriers (Inc l r ds) =
     retrieve_function_carriers l @ retrieve_function_carriers r"
| "retrieve_function_carriers e = []"

text \<open>Modelled from the spec: \<^verbatim>\<open>prod\<close> combines the per-axis weights multiplicatively,
  starting from 1.\<close>

definition prod_py :: "expr list \<Rightarrow> expr" where
  "prod_py ws = foldl Mul (Num 1) ws"

section \<open>The sparse function and the interpolators\<close>

text \<open>
  What the interpolators read from the sparse function \<^verbatim>\<open>self.sfunction\<close> and from its
  grid: \<^verbatim>\<open>name\<close>, \<^verbatim>\<open>r\<close>, \<^verbatim>\<open>grid.dimensions\<close> (\<^verbatim>\<open>grid.dim\<close> is their number),
  \<^verbatim>\<open>_point_symbols\<close> (a tuple that is also indexed by dimension), \<^verbatim>\<open>_position_map\<close> (a
  dictionary from position expression to position symbol), \<^verbatim>\<open>_coordinate_indices\<close>,
  \<^verbatim>\<open>_sparse_dim\<close>, \<^verbatim>\<open>dimensions\<close>, \<^verbatim>\<open>dtype\<close>, \<^verbatim>\<open>gridpoints\<close>,
  \<^verbatim>\<open>interpolation_coeffs\<close> with its \<^verbatim>\<open>dimensions\<close>, and the sparse function itself as a
  symbolic object (\<open>sf_self\<close>).
\<close>

record sparse_function =
  sf_name :: string
  sf_r :: int
  sf_grid_dimensions :: "dimension list"
  sf_point_symbols :: "(dimension \<times> expr) list"
  sf_position_map :: "(expr \<times> expr) list"
  sf_coordinate_indices :: "expr list"
  sf_sparse_dim :: dimension
  sf_dimensions :: "dimension list"
  sf_dtype :: string
  sf_gridpoints :: "expr option"
  sf_interpolation_coeffs :: expr
  sf_interpolation_coeffs_dimensions :: "dimension list"
  sf_self :: expr

text \<open>The class of the interpolator object: the base class \<^verbatim>\<open>WeightedInterpolation\<close> or
  one of its two subclasses.\<close>

datatype scheme = WeightedInterpolation | LinearInterpolator | PrecomputedInterpolator

record interpolator =
  kind :: scheme
  sfunction :: sparse_function

definition gdim :: "interpolator \<Rightarrow> dimension list" where
  "gdim itp = sf_grid_dimensions (sfunction itp)"

definition grid_dim :: "interpolator \<Rightarrow> nat" where
  "grid_dim itp = length (sf_grid_dimensions (sfunction itp))"

definition psym :: "interpolator \<Rightarrow> (dimension \<times> expr) list" where
  "psym itp = sf_point_symbols (sfunction itp)"

definition radius :: "interpolator \<Rightarrow> int" where
  "radius itp = sf_r (sfunction itp)"

text \<open>Modelled from the spec: \<^verbatim>\<open>as_tuple\<close> turns the optional ordered list of implicit
  dimensions into a tuple, \<^verbatim>\<open>None\<close> into the empty one.\<close>

definition as_tuple :: "dimension list option \<Rightarrow> dimension list" where
  "as_tuple ds = (case ds of None \<Rightarrow> [] | Some l \<Rightarrow> l)"

definition implicit_dims :: "interpolator \<Rightarrow> dimension list option \<Rightarrow> dimension list" where
  "implicit_dims itp ds = as_tuple ds @ sf_dimensions (sfunction itp)"

text \<open>\<^verbatim>\<open>_interp_points\<close>: \<^verbatim>\<open>range(-self.r+1, self.r+1)\<close>, overridden by the precomputed
  scheme with \<^verbatim>\<open>range(-self.r//2 + 1, self.r//2 + 1)\<close>, where Python reads \<^verbatim>\<open>-self.r//2\<close>
  as \<^verbatim>\<open>(-self.r)//2\<close>.\<close>

definition interp_points :: "interpolator \<Rightarrow> int list" where
  "interp_points itp =
     (case kind itp of
        PrecomputedInterpolator \<Rightarrow>
          range_py ((- radius itp) div 2 + 1) (radius itp div 2 + 1)
      | _ \<Rightarrow> range_py (- radius itp + 1) (radius itp + 1))"

definition nd_points :: "interpolator \<Rightarrow> int list list" where
  "nd_points itp = product_repeat (interp_points itp) (grid_dim itp)"

definition ddim :: "interpolator \<Rightarrow> py_error + dimension" where
  "ddim itp = getitem (sf_interpolation_coeffs_dimensions (sfunction itp)) 1"

definition idim :: "interpolator \<Rightarrow> py_error + dimension" where
  "idim itp = getitem (sf_interpolation_coeffs_dimensions (sfunction itp)) (- 1)"

text \<open>One entry of the precomputed weight list:
  \<^verbatim>\<open>self._icoeffs.subs({self._ddim: di, self._idim: k})\<close>.\<close>

definition icoeffs_lookup :: "interpolator \<Rightarrow> nat \<Rightarrow> int \<Rightarrow> py_error + expr" where
  "icoeffs_lookup itp di k =
     bind_err (ddim itp) (\<lambda>dd. bind_err (idim itp) (\<lambda>dk.
       Inr (subs (dict_of [(dd, Num (int di)), (dk, Num k)])
                 (sf_interpolation_coeffs (sfunction itp)))))"

text \<open>\<^verbatim>\<open>_weights\<close>: the dictionary from dimension to the list of per-axis weights. The base
  class raises \<^verbatim>\<open>NotImplementedError\<close>.\<close>

definition weights :: "interpolator \<Rightarrow> py_error + (dimension \<times> expr list) list" where
  "weights itp =
     (case kind itp of
        WeightedInterpolation \<Rightarrow> Inl NotImplementedError
      | LinearInterpolator \<Rightarrow>
          Inr (dict_of (map (\<lambda>(d, p). (d, [Sub (Num 1) (Div p (Spacing d)), Div p (Spacing d)]))
                            (zip (gdim itp) (map snd (psym itp)))))
      | PrecomputedInterpolator \<Rightarrow>
          bind_err
            (sequence_err
               (map (\<lambda>(di, d).
                       bind_err (sequence_err (map (icoeffs_lookup itp di) (interp_points itp)))
                                (\<lambda>ws. Inr (d, ws)))
                    (enumerate 0 (gdim itp))))
            (\<lambda>kvs. Inr (dict_of kvs)))"

text \<open>One factor \<^verbatim>\<open>self._weights[d][i]\<close>: the list of the axis is indexed by the value of
  the offset.\<close>

definition weight_factor :: "interpolator \<Rightarrow> dimension \<times> int \<Rightarrow> py_error + expr" where
  "weight_factor itp = (\<lambda>(d, i).
     bind_err (weights itp) (\<lambda>w. bind_err (dict_get w d) (\<lambda>l. getitem l i)))"

definition interpolation_coeffs :: "interpolator \<Rightarrow> py_error + expr list" where
  "interpolation_coeffs itp =
     bind_err
       (sequence_err
          (map (\<lambda>p. bind_err (sequence_err (map (weight_factor itp) (zip (gdim itp) p)))
                              (\<lambda>fs. Inr (p, prod_py fs)))
               (nd_points itp)))
       (\<lambda>coeffs. Inr (dict_values (dict_of coeffs)))"

definition coeff_temps :: "interpolator \<Rightarrow> dimension list \<Rightarrow> py_error + expr list" where
  "coeff_temps itp ids =
     (case kind itp of
        LinearInterpolator \<Rightarrow>
          sequence_err
            (map (\<lambda>(d, pos).
                    bind_err (dict_get (psym itp) d) (\<lambda>p.
                      Inr (Eq p (Sub pos (Mul (Spacing d) (INT_cast (Floor (Div pos (Spacing d))))))
                              ids)))
                 (zip (gdim itp) (map snd (sf_position_map (sfunction itp)))))
      | _ \<Rightarrow> Inr [])"

definition positions :: "interpolator \<Rightarrow> dimension list \<Rightarrow> expr list" where
  "positions itp ids =
     (if kind itp = PrecomputedInterpolator \<and> sf_gridpoints (sfunction itp) \<noteq> None then []
      else map (\<lambda>(k, v). Eq v k ids) (sf_position_map (sfunction itp)))"

definition subs_coords ::
  "interpolator \<Rightarrow> expr \<Rightarrow> (expr \<times> expr) list list \<Rightarrow> py_error + expr list" where
  "subs_coords itp e idx_subs =
     bind_err (interpolation_coeffs itp) (\<lambda>cs.
       Inr (map (\<lambda>(b, v_sub). Mul (xreplace v_sub e) (xreplace v_sub b)) (zip cs idx_subs)))"

definition subs_coords_eq ::
  "interpolator \<Rightarrow> expr \<Rightarrow> expr \<Rightarrow> (expr \<times> expr) list list \<Rightarrow> dimension list
     \<Rightarrow> py_error + expr list" where
  "subs_coords_eq itp field e idx_subs ids =
     bind_err (interpolation_coeffs itp) (\<lambda>cs.
       Inr (map (\<lambda>(b, vsub). Inc (xreplace vsub field) (Mul (xreplace vsub e) b) ids)
                (zip cs idx_subs)))"

section \<open>The index builder\<close>

text \<open>The name \<^verbatim>\<open>'ii_%s_%s_%d' % (self.sfunction.name, d.name, ri)\<close> of an index symbol.\<close>

definition index_name :: "interpolator \<Rightarrow> dimension \<Rightarrow> nat \<Rightarrow> string" where
  "index_name itp d ri = ''ii_'' @ sf_name (sfunction itp) @ ''_'' @ d @ ''_'' @ decimal ri"

text \<open>\<^verbatim>\<open>condition\<close>: both comparisons are wrapped in an unevaluated \<^verbatim>\<open>And\<close> of their own.\<close>

definition condition :: "interpolator \<Rightarrow> dimension \<Rightarrow> expr \<Rightarrow> expr" where
  "condition itp d p =
     (let lb = And [Ge p (Sub (Symbolic_min d) (Num (radius itp)))];
          ub = And [Le p (Add (Symbolic_max d) (Num (radius itp)))]
      in And [lb, ub])"

text \<open>\<^verbatim>\<open>mapper[d].append(x)\<close>; the keys of \<^verbatim>\<open>mapper\<close> are the grid dimensions and \<open>d\<close> is
  one of them, so the lookup cannot fail.\<close>

definition dict_append :: "('k \<times> 'v list) list \<Rightarrow> 'k \<Rightarrow> 'v \<Rightarrow> ('k \<times> 'v list) list" where
  "dict_append m k x = map (\<lambda>(k', l). if k' = k then (k', l @ [x]) else (k', l)) m"

text \<open>The body of the inner loop, on the state \<^verbatim>\<open>(mapper, temps)\<close>. The dictionary
  \<^verbatim>\<open>points\<close> of the source is only ever appended to and never read; it is left out.\<close>

definition index_body ::
  "interpolator \<Rightarrow> dimension list \<Rightarrow> dimension \<Rightarrow> expr
     \<Rightarrow> (dimension \<times> expr list) list \<times> expr list \<Rightarrow> nat \<times> int
     \<Rightarrow> (dimension \<times> expr list) list \<times> expr list" where
  "index_body itp ids d pos = (\<lambda>(mapper, temps) (ri, r).
     (let p = Symbol (index_name itp d ri) None
      in (dict_append mapper d
            (ConditionalDimension (index_name itp d ri) (sf_sparse_dim (sfunction itp))
               (condition itp d p) True),
          temps @ [Eq p (Add pos (Num r)) ids])))"

definition index_loop ::
  "interpolator \<Rightarrow> dimension list \<Rightarrow> (dimension \<times> expr list) list \<times> expr list
     \<Rightarrow> (dimension \<times> expr list) list \<times> expr list" where
  "index_loop itp ids st =
     foldl (\<lambda>st ((di, d), pos). foldl (index_body itp ids d pos) st (enumerate 0 (interp_points itp)))
           st (zip (enumerate 0 (gdim itp)) (sf_coordinate_indices (sfunction itp)))"

text \<open>The substitution dictionary of one neighbour \<open>p\<close>:
  \<^verbatim>\<open>{v: v.subs({k: c[pi] - v.origin.get(k, 0) for ((k, c), pi) in zip(mapper.items(), p)})
      for v in variables}\<close>.\<close>

definition idx_sub ::
  "(dimension \<times> expr list) list \<Rightarrow> expr list \<Rightarrow> int list \<Rightarrow> py_error + (expr \<times> expr) list" where
  "idx_sub mapper variables p =
     bind_err
       (sequence_err
          (map (\<lambda>v. bind_err
                       (sequence_err
                          (map (\<lambda>((k, c), pi).
                                  bind_err (getitem c pi) (\<lambda>cp. Inr (k, Sub cp (origin_get v k))))
                               (zip mapper p)))
                       (\<lambda>s. Inr (v, subs (dict_of s) v)))
               variables))
       (\<lambda>kvs. Inr (dict_of kvs))"

text \<open>\<^verbatim>\<open>_interpolation_indices(variables, offset, field_offset, implicit_dims)\<close> returns
  \<^verbatim>\<open>(idx_subs, temps)\<close>.\<close>

definition interpolation_indices ::
  "interpolator \<Rightarrow> expr list \<Rightarrow> int \<Rightarrow> (dimension \<times> expr) list \<Rightarrow> dimension list
     \<Rightarrow> py_error + (expr \<times> expr) list list \<times> expr list" where
  "interpolation_indices itp variables offset field_offset ids =
     bind_err (coeff_temps itp ids) (\<lambda>ct.
       (case index_loop itp ids (dict_of (map (\<lambda>d. (d, [])) (gdim itp)), positions itp ids @ ct) of
          (mapper, temps) \<Rightarrow>
            bind_err (sequence_err (map (idx_sub mapper variables) (nd_points itp)))
                     (\<lambda>idx_subs. Inr (idx_subs, temps))))"

section \<open>Deferred operations\<close>

text \<open>The expression handed to \<^verbatim>\<open>interpolate\<close> or \<^verbatim>\<open>inject\<close>: an object with an
  \<^verbatim>\<open>evaluate\<close> attribute (the object and what the attribute gives), or a generic
  expression or number without one, for which the \<^verbatim>\<open>AttributeError\<close> is caught.\<close>

datatype pyexpr = Evaluable expr expr | Generic expr

fun evaluate :: "pyexpr \<Rightarrow> expr" where
  "evaluate (Evaluable e ev) = ev"
| "evaluate (Generic e) = e"

text \<open>The three classes of deferred operation, with the attributes their constructors
  store; the last two arguments are \<^verbatim>\<open>interpolator\<close> and \<^verbatim>\<open>callback\<close>.\<close>

datatype operation =
    UnevaluatedSparseOperation interpolator "unit \<Rightarrow> py_error + expr list"
  | Interpolation pyexpr int bool "(dimension \<times> expr) list" interpolator
      "unit \<Rightarrow> py_error + expr list"
  | Injection expr pyexpr int interpolator "unit \<Rightarrow> py_error + expr list"

fun callback :: "operation \<Rightarrow> unit \<Rightarrow> py_error + expr list" where
  "callback (UnevaluatedSparseOperation itp cb) = cb"
| "callback (Interpolation e offset increment self_subs itp cb) = cb"
| "callback (Injection field e offset itp cb) = cb"

text \<open>\<^verbatim>\<open>_evaluate\<close>: call the callback and assert that it returned equations only.\<close>

definition evaluate_op :: "operation \<Rightarrow> py_error + expr list" where
  "evaluate_op obj =
     bind_err (callback obj ()) (\<lambda>return_value.
       if list_all isinstance_Eq return_value then Inr return_value else Inl AssertionError)"

definition interpolate_callback ::
  "interpolator \<Rightarrow> pyexpr \<Rightarrow> int \<Rightarrow> bool \<Rightarrow> (dimension \<times> expr) list \<Rightarrow> dimension list
     \<Rightarrow> unit \<Rightarrow> py_error + expr list" where
  "interpolate_callback itp e offset increment self_subs ids = (\<lambda>_.
     (let ev = evaluate e;
          variables = retrieve_function_carriers ev
      in bind_err (getitem variables 0) (\<lambda>v0.
         (let field_offset = origin v0
          in bind_err (interpolation_indices itp variables offset field_offset ids)
               (\<lambda>(idx_subs, temps).
                  bind_err (subs_coords itp ev idx_subs) (\<lambda>args.
                    (let rhs = Symbol ''sum'' (Some (sf_dtype (sfunction itp)));
                         summands = [Eq rhs (Float 0) ids] @ map (\<lambda>i. Inc rhs i ids) args;
                         lhs = subs self_subs (sf_self (sfunction itp));
                         last = [(if increment then Inc else Eq) lhs rhs ids]
                     in Inr (temps @ summands @ last))))))))"

definition interpolate ::
  "interpolator \<Rightarrow> pyexpr \<Rightarrow> int \<Rightarrow> bool \<Rightarrow> (dimension \<times> expr) list
     \<Rightarrow> dimension list option \<Rightarrow> operation" where
  "interpolate itp e offset increment self_subs ds =
     Interpolation e offset increment self_subs itp
       (interpolate_callback itp e offset increment self_subs (implicit_dims itp ds))"

definition inject_callback ::
  "interpolator \<Rightarrow> expr \<Rightarrow> pyexpr \<Rightarrow> int \<Rightarrow> dimension list \<Rightarrow> unit \<Rightarrow> py_error + expr list" where
  "inject_callback itp field e offset ids = (\<lambda>_.
     (let ev = evaluate e;
          variables = retrieve_function_carriers ev @ [field];
          field_offset = origin field
      in bind_err (interpolation_indices itp variables offset field_offset ids)
           (\<lambda>(idx_subs, temps).
              bind_err (subs_coords_eq itp field ev idx_subs ids) (\<lambda>eqns.
                Inr (temps @ eqns)))))"

definition inject ::
  "interpolator \<Rightarrow> expr \<Rightarrow> pyexpr \<Rightarrow> int \<Rightarrow> dimension list option \<Rightarrow> operation" where
  "inject itp field e offset ds =
     Injection field e offset itp (inject_callback itp field e offset (implicit_dims itp ds))"

section \<open>Combining deferred operations\<close>

text \<open>What \<^verbatim>\<open>+\<close> is applied to: a deferred operation, a single symbolic object (an
  equation, say), or a Python list of such values.\<close>

datatype pyval = Operation operation | Expr expr | List "pyval list"

text \<open>Modelled from the spec: \<^verbatim>\<open>flatten\<close> of \<^verbatim>\<open>devito.tools\<close> is not part of the sources at
  hand. It turns a hierarchy of nested lists into one flat list that keeps the
  left-to-right order; deferred operations and equations are not lists and stay as they
  are.\<close>

fun flatten :: "pyval list \<Rightarrow> pyval list" where
  "flatten [] = []"
| "flatten (List l # xs) = flatten l @ flatten xs"
| "flatten (Operation obj # xs) = Operation obj # flatten xs"
| "flatten (Expr e # xs) = Expr e # flatten xs"

text \<open>\<^verbatim>\<open>__add__\<close> and \<^verbatim>\<open>__radd__\<close> of \<^verbatim>\<open>UnevaluatedSparseOperation\<close>.\<close>

definition add_op :: "operation \<Rightarrow> pyval \<Rightarrow> pyval" where
  "add_op self other = List (flatten [Operation self, other])"

definition radd_op :: "operation \<Rightarrow> pyval \<Rightarrow> pyval" where
  "radd_op self other = List (flatten [other, Operation self])"

text \<open>Python's dispatch of \<^verbatim>\<open>a + b\<close>: \<^verbatim>\<open>__add__\<close> of a deferred operation on the left;
  otherwise \<^verbatim>\<open>__radd__\<close> of a deferred operation on the right, which is reached because
  neither a list nor an equation accepts it as right operand; two lists are concatenated;
  two symbolic objects are added by SymPy unless one is an equation; a list and a symbolic
  object raise \<^verbatim>\<open>TypeError\<close>.\<close>

fun py_add :: "pyval \<Rightarrow> pyval \<Rightarrow> py_error + pyval" where
  "py_add (Operation self) other = Inr (add_op self other)"
| "py_add other (Operation self) = Inr (radd_op self other)"
| "py_add (List x) (List y) = Inr (List (x @ y))"
| "py_add (Expr a) (Expr b) =
     (if isinstance_Eq a \<or> isinstance_Eq b then Inl TypeError else Inr (Expr (Add a b)))"
| "py_add a b = Inl TypeError"

text \<open>\<^verbatim>\<open>a + b1 + ... + bn\<close>, associated to the left.\<close>

fun combine :: "pyval \<Rightarrow> pyval list \<Rightarrow> py_error + pyval" where
  "combine a [] = Inr a"
| "combine a (b # bs) = bind_err (py_add a b) (\<lambda>c. combine c bs)"

text \<open>Modelled from the spec: the compiler that forces the collected values is not part
  of the sources at hand. It forces each element in order and flattens: a deferred
  operation by \<^verbatim>\<open>_evaluate\<close>, an equation is itself, a list element by element.\<close>

fun force :: "pyval \<Rightarrow> py_error + expr list" where
  "force (Operation obj) = evaluate_op obj"
| "force (Expr e) = Inr [e]"
| "force (List l) = bind_err (sequence_err (map force l)) (\<lambda>ls. Inr (concat ls))"

text \<open>A value without a list inside a list.\<close>

fun is_leaf :: "pyval \<Rightarrow> bool" where
  "is_leaf (List l) = False"
| "is_leaf v = True"

fun operand :: "pyval \<Rightarrow> bool" where
  "operand (Operation obj) = True"
| "operand (List l) = list_all is_leaf l"
| "operand (Expr e) = False"

section \<open>The meaning of weights and conditions\<close>

text \<open>The value of an arithmetic expression, given values for its atoms; \<^verbatim>\<open>INT\<close> is the
  cast to an integer, which truncates towards zero.\<close>

fun eval :: "(expr \<Rightarrow> real) \<Rightarrow> expr \<Rightarrow> real" where
  "eval env (Num n) = of_int n"
| "eval env (Float q) = of_rat q"
| "eval env (Add a b) = eval env a + eval env b"
| "eval env (Sub a b) = eval env a - eval env b"
| "eval env (Mul a b) = eval env a * eval env b"
| "eval env (Div a b) = eval env a / eval env b"
| "eval env (Floor a) = of_int \<lfloor>eval env a\<rfloor>"
| "eval env (INT_cast a) =
     (if 0 \<le> eval env a then of_int \<lfloor>eval env a\<rfloor> else of_int \<lceil>eval env a\<rceil>)"
| "eval env e = env e"

text \<open>The truth value of a condition built from comparisons and conjunctions.\<close>

fun holds :: "(expr \<Rightarrow> real) \<Rightarrow> expr \<Rightarrow> bool" where
  "holds env (Ge a b) = (eval env b \<le> eval env a)"
| "holds env (Le a b) = (eval env a \<le> eval env b)"
| "holds env (And cs) = (\<forall>c \<in> set cs. holds env c)"
| "holds env e = False"

text \<open>The dimensions that occur as indices in an expression, outside the guarded
  dimensions.\<close>

fun dims_of :: "expr \<Rightarrow> dimension set" where
  "dims_of (Dim d) = {d}"
| "dims_of (Add a b) = dims_of a \<union> dims_of b"
| "dims_of (Sub a b) = dims_of a \<union> dims_of b"
| "dims_of (Mul a b) = dims_of a \<union> dims_of b"
| "dims_of (Div a b) = dims_of a \<union> dims_of b"
| "dims_of (Ge a b) = dims_of a \<union> dims_of b"
| "dims_of (Le a b) = dims_of a \<union> dims_of b"
| "dims_of (And cs) = (\<Union>c \<in> set cs. dims_of c)"
| "dims_of (INT_cast a) = dims_of a"
| "dims_of (Floor a) = dims_of a"
| "dims_of (Fn f idx org) = (\<Union>c \<in> set idx. dims_of c)"
| "dims_of (Eq l r ds) = dims_of l \<union> dims_of r"
| "dims_of (Inc l r ds) = dims_of l \<union> dims_of r"
| "dims_of e = {}"

section \<open>A concrete point set\<close>

text \<open>A sparse function \<open>src\<close> on a two-dimensional grid with dimensions \<open>x\<close> and \<open>y\<close>, a
  field \<open>field_u\<close> on that grid, and the interpolators of the two schemes on it.\<close>

definition src :: sparse_function where
  "src = \<lparr> sf_name = ''src'', sf_r = 1, sf_grid_dimensions = [''x'', ''y''],
           sf_point_symbols = [(''x'', Symbol ''px'' None), (''y'', Symbol ''py'' None)],
           sf_position_map =
             [(Sub (Fn ''src_coords'' [Dim ''p_src'', Num 0] []) (Symbol ''o_x'' None),
               Symbol ''posx'' None),
              (Sub (Fn ''src_coords'' [Dim ''p_src'', Num 1] []) (Symbol ''o_y'' None),
               Symbol ''posy'' None)],
           sf_coordinate_indices =
             [INT_cast (Floor (Div (Symbol ''posx'' None) (Spacing ''x''))),
              INT_cast (Floor (Div (Symbol ''posy'' None) (Spacing ''y'')))],
           sf_sparse_dim = ''p_src'', sf_dimensions = [''time'', ''p_src''],
           sf_dtype = ''float32'', sf_gridpoints = None,
           sf_interpolation_coeffs = Fn ''src_coeffs'' [Dim ''p_src'', Dim ''d'', Dim ''i''] [],
           sf_interpolation_coeffs_dimensions = [''p_src'', ''d'', ''i''],
           sf_self = Fn ''src'' [Dim ''time'', Dim ''p_src''] [] \<rparr>"

definition linear_src :: interpolator where
  "linear_src = \<lparr> kind = LinearInterpolator, sfunction = src \<rparr>"

definition precomputed_src :: "int \<Rightarrow> interpolator" where
  "precomputed_src n = \<lparr> kind = PrecomputedInterpolator, sfunction = src \<lparr> sf_r := n \<rparr> \<rparr>"

definition field_u :: expr where
  "field_u = Fn ''u'' [Dim ''time'', Dim ''x'', Dim ''y''] []"


section \<open>Closed forms used in the statements\<close>

text \<open>The entry of the coefficient table for axis number \<open>di\<close> at offset \<open>k\<close>, when the
  table has at least two dimensions: what \<open>icoeffs_lookup\<close> returns then.\<close>

definition table_entry :: "interpolator \<Rightarrow> nat \<Rightarrow> int \<Rightarrow> expr" where
  "table_entry itp di k =
     subs (dict_of [(sf_interpolation_coeffs_dimensions (sfunction itp) ! 1, Num (int di)),
                    (last (sf_interpolation_coeffs_dimensions (sfunction itp)), Num k)])
          (sf_interpolation_coeffs (sfunction itp))"

text \<open>The guarded dimension that the index builder creates for axis \<open>d\<close> at position \<open>ri\<close>
  of the offset range, and the equation that defines its index symbol from the base
  position \<open>pos\<close> and the offset \<open>r\<close>.\<close>

definition guarded_dim :: "interpolator \<Rightarrow> dimension \<Rightarrow> nat \<Rightarrow> expr" where
  "guarded_dim itp d ri =
     ConditionalDimension (index_name itp d ri) (sf_sparse_dim (sfunction itp))
       (condition itp d (Symbol (index_name itp d ri) None)) True"

definition index_eq :: "interpolator \<Rightarrow> dimension list \<Rightarrow> dimension \<Rightarrow> expr \<Rightarrow> nat \<times> int \<Rightarrow> expr" where
  "index_eq itp ids d pos = (\<lambda>(ri, r). Eq (Symbol (index_name itp d ri) None) (Add pos (Num r)) ids)"

text \<open>The index equations in the order the builder emits them: axis by axis, and for each
  axis offset by offset.\<close>

definition index_eqs :: "interpolator \<Rightarrow> dimension list \<Rightarrow> expr list" where
  "index_eqs itp ids =
     concat (map (\<lambda>(d, pos). map (index_eq itp ids d pos) (enumerate 0 (interp_points itp)))
                 (zip (gdim itp) (sf_coordinate_indices (sfunction itp))))"

text \<open>The substitution of grid dimensions for the operand \<open>v\<close> at the neighbour \<open>p\<close>: each
  axis is rebound to the guarded dimension at the list position that the offset selects,
  minus the origin of \<open>v\<close> on that axis. \<open>neighbour_subs\<close> is the dictionary over all
  operands.\<close>

definition dimension_subs :: "interpolator \<Rightarrow> expr \<Rightarrow> int list \<Rightarrow> (dimension \<times> expr) list" where
  "dimension_subs itp v p =
     map (\<lambda>(d, i). (d, Sub (guarded_dim itp d (list_pos (length (interp_points itp)) i))
                            (origin_get v d)))
         (zip (gdim itp) p)"

definition neighbour_subs :: "interpolator \<Rightarrow> expr list \<Rightarrow> int list \<Rightarrow> (expr \<times> expr) list" where
  "neighbour_subs itp variables p =
     dict_of (map (\<lambda>v. (v, subs (dict_of (dimension_subs itp v p)) v)) variables)"

text \<open>What the interpolators expect of the sparse function: distinct grid dimensions, one
  coordinate index per grid dimension and, for the linear scheme, one point symbol per
  grid dimension.\<close>

definition well_formed :: "interpolator \<Rightarrow> bool" where
  "well_formed itp \<longleftrightarrow>
     distinct (gdim itp) \<and>
     length (sf_coordinate_indices (sfunction itp)) = length (gdim itp) \<and>
     (kind itp = LinearInterpolator \<longrightarrow> map fst (psym itp) = gdim itp)"

text \<open>The scheme has one weight per offset on every axis: the precomputed scheme with a
  coefficient table of at least two dimensions, at any radius; the linear scheme, which
  has two weights per axis, at radius 1.\<close>

definition one_weight_per_offset :: "interpolator \<Rightarrow> bool" where
  "one_weight_per_offset itp \<longleftrightarrow>
     kind itp = PrecomputedInterpolator \<and>
       2 \<le> length (sf_interpolation_coeffs_dimensions (sfunction itp)) \<or>
     kind itp = LinearInterpolator \<and> radius itp = 1"

text \<open>The combined weight of the neighbour \<open>p\<close>, given the dictionary \<open>w\<close> of per-axis
  weights: on each axis the weight at the list position that the offset selects.\<close>

definition weight_list :: "(dimension \<times> expr list) list \<Rightarrow> dimension \<Rightarrow> expr list" where
  "weight_list w d = (case map_of w d of None \<Rightarrow> [] | Some l \<Rightarrow> l)"

definition neighbour_weight ::
  "interpolator \<Rightarrow> (dimension \<times> expr list) list \<Rightarrow> int list \<Rightarrow> expr" where
  "neighbour_weight itp w p =
     prod_py (map (\<lambda>(d, i). weight_list w d ! list_pos (length (interp_points itp)) i)
                  (zip (gdim itp) p))"




text \<open>Forcing the elements of a Python list in order and concatenating the results.\<close>

definition force_all :: "pyval list \<Rightarrow> py_error + expr list" where
  "force_all l = bind_err (sequence_err (map force l)) (\<lambda>ls. Inr (concat ls))"

text \<open>The dimensions that occur among the indices of the function carriers of an
  expression: the dimensions through which the expression accesses fields.\<close>

fun access_dims :: "expr \<Rightarrow> dimension set" where
  "access_dims (Fn f idx org) = (\<Union>c \<in> set idx. dims_of c)"
| "access_dims (Add a b) = access_dims a \<union> access_dims b"
| "access_dims (Sub a b) = access_dims a \<union> access_dims b"
| "access_dims (Mul a b) = access_dims a \<union> access_dims b"
| "access_dims (Div a b) = access_dims a \<union> access_dims b"
| "access_dims (Ge a b) = access_dims a \<union> access_dims b"
| "access_dims (Le a b) = access_dims a \<union> access_dims b"
| "access_dims (And cs) = (\<Union>c \<in> set cs. access_dims c)"
| "access_dims (INT_cast a) = access_dims a"
| "access_dims (Floor a) = access_dims a"
| "access_dims (Eq l r ds) = access_dims l \<union> access_dims r"
| "access_dims (Inc l r ds) = access_dims l \<union> access_dims r"
| "access_dims e = {}"

section \<open>Auxiliary facts\<close>

subsection \<open>Python lists, ranges and dictionaries\<close>

lemma bind_err_Inr [simp]: "bind_err (Inr x) f = f x"
  by (simp add: bind_err_def)

lemma bind_err_Inl [simp]: "bind_err (Inl e) f = Inl e"
  by (simp add: bind_err_def)

lemma sequence_err_all:
  "(\<And>x. x \<in> set xs \<Longrightarrow> g x = Inr (f x)) \<Longrightarrow> sequence_err (map g xs) = Inr (map f xs)"
  by (induction xs) simp_all

lemma sequence_err_map_Inr [simp]: "sequence_err (map (\<lambda>x. Inr (f x)) xs) = Inr (map f xs)"
  by (rule sequence_err_all) simp

lemma sequence_err_Inl:
  "x \<in> set xs \<Longrightarrow> g x = Inl e \<Longrightarrow> \<exists>e'. sequence_err (map g xs) = Inl e'"
  by (induction xs) (auto split: sum.splits)

lemma length_range_py [simp]: "length (range_py lo hi) = nat (hi - lo)"
  by (simp add: range_py_def)

lemma set_range_py [simp]: "set (range_py lo hi) = {lo..<hi}"
  by (auto simp: range_py_def)

lemma distinct_range_py [simp]: "distinct (range_py lo hi)"
  by (simp add: range_py_def)

lemma nth_range_py: "j < nat (hi - lo) \<Longrightarrow> range_py lo hi ! j = lo + int j"
  by (simp add: range_py_def)

lemma getitem_in_range:
  "- int (length xs) \<le> i \<Longrightarrow> i < int (length xs) \<Longrightarrow> getitem xs i = Inr (xs ! list_pos (length xs) i)"
  by (simp add: getitem_def)

lemma getitem_out_of_range:
  "int (length xs) \<le> i \<Longrightarrow> getitem xs i = Inl IndexError"
  by (simp add: getitem_def)

lemma list_pos_less: "- int n \<le> i \<Longrightarrow> i < int n \<Longrightarrow> list_pos n i < n"
  by (auto simp: list_pos_def)

lemma product_repeat_product_lists: "product_repeat xs n = product_lists (replicate n xs)"
  by (induction n) simp_all

lemma length_product_repeat [simp]: "length (product_repeat xs n) = length xs ^ n"
  by (induction n) (simp_all add: length_concat comp_def sum_list_triv)

lemma distinct_product_repeat: "distinct xs \<Longrightarrow> distinct (product_repeat xs n)"
  by (simp add: product_repeat_product_lists distinct_product_lists)

lemma set_product_repeat:
  "set (product_repeat xs n) = {p. length p = n \<and> set p \<subseteq> set xs}"
proof (induction n)
  case 0
  then show ?case by auto
next
  case (Suc n)
  show ?case
  proof (rule set_eqI)
    fix p
    show "p \<in> set (product_repeat xs (Suc n)) \<longleftrightarrow> p \<in> {p. length p = Suc n \<and> set p \<subseteq> set xs}"
      using Suc by (cases p) auto
  qed
qed

lemma dict_set_fresh: "k \<notin> fst ` set m \<Longrightarrow> dict_set m k v = m @ [(k, v)]"
  by (induction m) auto

lemma foldl_dict_set_distinct:
  "distinct (map fst (m @ kvs)) \<Longrightarrow> foldl (\<lambda>m (k, v). dict_set m k v) m kvs = m @ kvs"
proof (induction kvs arbitrary: m)
  case Nil
  then show ?case by simp
next
  case (Cons kv kvs)
  obtain k v where kv: "kv = (k, v)" by (cases kv)
  have fresh: "k \<notin> fst ` set m" using Cons.prems kv by auto
  have "distinct (map fst ((m @ [(k, v)]) @ kvs))" using Cons.prems kv by simp
  from Cons.IH [OF this] show ?case using fresh kv by (simp add: dict_set_fresh)
qed

lemma dict_of_distinct: "distinct (map fst kvs) \<Longrightarrow> dict_of kvs = kvs"
  using foldl_dict_set_distinct [of "[]" kvs] by (simp add: dict_of_def)

lemma dict_get_zip:
  "distinct ks \<Longrightarrow> length ks = length vs \<Longrightarrow> j < length ks \<Longrightarrow> dict_get (zip ks vs) (ks ! j) = Inr (vs ! j)"
  by (simp add: dict_get_def map_of_zip_nth)



subsection \<open>Offsets, neighbours and weights\<close>

lemma interp_points_precomputed:
  "kind itp = PrecomputedInterpolator \<Longrightarrow>
   interp_points itp = range_py ((- radius itp) div 2 + 1) (radius itp div 2 + 1)"
  by (simp add: interp_points_def)

lemma interp_points_other:
  "kind itp \<noteq> PrecomputedInterpolator \<Longrightarrow>
   interp_points itp = range_py (- radius itp + 1) (radius itp + 1)"
  by (cases "kind itp") (simp_all add: interp_points_def)

lemma distinct_interp_points [simp]: "distinct (interp_points itp)"
  by (cases "kind itp") (simp_all add: interp_points_def)

lemma interp_points_in_range:
  assumes "i \<in> set (interp_points itp)"
  shows "- int (length (interp_points itp)) \<le> i \<and> i < int (length (interp_points itp))"
proof (cases "kind itp = PrecomputedInterpolator")
  case True
  with assms show ?thesis
    by (simp add: interp_points_precomputed) linarith
next
  case False
  with assms show ?thesis
    by (simp add: interp_points_other)
qed

lemma distinct_nd_points [simp]: "distinct (nd_points itp)"
  by (simp add: nd_points_def distinct_product_repeat)

lemma length_nd_points: "length (nd_points itp) = length (interp_points itp) ^ grid_dim itp"
  by (simp add: nd_points_def)

lemma set_nd_points:
  "set (nd_points itp) = {p. length p = grid_dim itp \<and> set p \<subseteq> set (interp_points itp)}"
  by (simp add: nd_points_def set_product_repeat)

lemma dict_values_dict_of_graph:
  "distinct xs \<Longrightarrow> dict_values (dict_of (map (\<lambda>x. (x, f x)) xs)) = map f xs"
  by (simp add: dict_of_distinct dict_values_def comp_def)

lemma interpolation_coeffs_closed:
  assumes "\<And>p. p \<in> set (nd_points itp) \<Longrightarrow>
             sequence_err (map (weight_factor itp) (zip (gdim itp) p)) = Inr (F p)"
  shows "interpolation_coeffs itp = Inr (map (\<lambda>p. prod_py (F p)) (nd_points itp))"
proof -
  have "sequence_err
          (map (\<lambda>p. bind_err (sequence_err (map (weight_factor itp) (zip (gdim itp) p)))
                              (\<lambda>fs. Inr (p, prod_py fs)))
               (nd_points itp))
        = Inr (map (\<lambda>p. (p, prod_py (F p))) (nd_points itp))"
    by (rule sequence_err_all) (simp add: assms)
  then show ?thesis
    by (simp add: interpolation_coeffs_def dict_values_dict_of_graph)
qed

lemma weight_factor_closed:
  assumes "weights itp = Inr w" and "map_of w d = Some l"
    and "length l = length (interp_points itp)" and "i \<in> set (interp_points itp)"
  shows "weight_factor itp (d, i) = Inr (l ! list_pos (length (interp_points itp)) i)"
  using assms interp_points_in_range [of i itp]
  by (simp add: weight_factor_def dict_get_def getitem_def)

lemma factors_closed:
  assumes W: "weights itp = Inr w"
    and L: "\<And>d. d \<in> set (gdim itp) \<Longrightarrow>
              \<exists>l. map_of w d = Some l \<and> length l = length (interp_points itp)"
    and P: "p \<in> set (nd_points itp)"
  shows "sequence_err (map (weight_factor itp) (zip (gdim itp) p))
         = Inr (map (\<lambda>(d, i). the (map_of w d) ! list_pos (length (interp_points itp)) i)
                    (zip (gdim itp) p))"
proof (rule sequence_err_all)
  fix x assume x: "x \<in> set (zip (gdim itp) p)"
  obtain d i where di: "x = (d, i)" by (cases x)
  from x di have d: "d \<in> set (gdim itp)" and "i \<in> set p"
    by (auto dest: set_zip_leftD set_zip_rightD)
  with P have i: "i \<in> set (interp_points itp)" by (auto simp: set_nd_points)
  from L [OF d] obtain l where l: "map_of w d = Some l" "length l = length (interp_points itp)"
    by blast
  show "weight_factor itp x
        = Inr (case x of (d, i) \<Rightarrow> the (map_of w d) ! list_pos (length (interp_points itp)) i)"
    using weight_factor_closed [OF W l i] l di by simp
qed

lemma weights_linear:
  assumes "kind itp = LinearInterpolator" and "distinct (gdim itp)"
    and "map fst (psym itp) = gdim itp"
  shows "weights itp
         = Inr (map (\<lambda>(d, p). (d, [Sub (Num 1) (Div p (Spacing d)), Div p (Spacing d)])) (psym itp))"
proof -
  have z: "zip (gdim itp) (map snd (psym itp)) = psym itp"
    using assms(3) zip_map_fst_snd [of "psym itp"] by simp
  have "map fst (map (\<lambda>(d, p). (d, [Sub (Num 1) (Div p (Spacing d)), Div p (Spacing d)])) (psym itp))
        = gdim itp"
    using assms(3) by (simp add: comp_def case_prod_unfold)
  then have "distinct (map fst (map (\<lambda>(d, p). (d, [Sub (Num 1) (Div p (Spacing d)), Div p (Spacing d)])) (psym itp)))"
    using assms(2) by simp
  then show ?thesis
    using assms(1) z by (simp add: weights_def dict_of_distinct)
qed

lemma map_of_linear:
  assumes "distinct (gdim itp)" and "map fst (psym itp) = gdim itp" and "j < length (gdim itp)"
  shows "map_of (map (\<lambda>(d, p). (d, [Sub (Num 1) (Div p (Spacing d)), Div p (Spacing d)])) (psym itp))
           (gdim itp ! j)
         = Some [Sub (Num 1) (Div (snd (psym itp ! j)) (Spacing (gdim itp ! j))),
                 Div (snd (psym itp ! j)) (Spacing (gdim itp ! j))]"
proof -
  let ?f = "\<lambda>(d, p). (d, [Sub (Num 1) (Div p (Spacing d)), Div p (Spacing d)])"
  have len: "length (psym itp) = length (gdim itp)"
    using assms(2) by (metis length_map)
  have fst: "fst (psym itp ! j) = gdim itp ! j"
    using assms(2,3) len by (metis nth_map)
  have d: "distinct (map fst (map ?f (psym itp)))"
    using assms(1,2) by (simp add: comp_def case_prod_unfold)
  have "j < length (map ?f (psym itp))"
    using assms(3) len by simp
  then have "map ?f (psym itp) ! j \<in> set (map ?f (psym itp))"
    by (rule nth_mem)
  then have "(gdim itp ! j, [Sub (Num 1) (Div (snd (psym itp ! j)) (Spacing (gdim itp ! j))),
                 Div (snd (psym itp ! j)) (Spacing (gdim itp ! j))]) \<in> set (map ?f (psym itp))"
    using assms(3) len fst by (simp add: case_prod_unfold del: set_map)
  then show ?thesis by (rule map_of_is_SomeI [OF d])
qed

lemma interp_points_linear_1:
  "kind itp = LinearInterpolator \<Longrightarrow> radius itp = 1 \<Longrightarrow> interp_points itp = [0, 1]"
  by (simp add: interp_points_def range_py_def upto_rec1)



lemma linear_coeffs:
  assumes K: "kind itp = LinearInterpolator" and R: "radius itp = 1"
    and D: "distinct (gdim itp)" and P: "map fst (psym itp) = gdim itp"
  shows "interpolation_coeffs itp
         = Inr (map (\<lambda>p. prod_py (map (\<lambda>(ds, i). [Sub (Num 1) (Div (snd ds) (Spacing (fst ds))),
                                                  Div (snd ds) (Spacing (fst ds))] ! nat i)
                                      (zip (psym itp) p)))
                    (product_repeat [0, 1] (length (psym itp))))"
proof -
  let ?w = "map (\<lambda>(d, p). (d, [Sub (Num 1) (Div p (Spacing d)), Div p (Spacing d)])) (psym itp)"
  let ?F = "\<lambda>p. map (\<lambda>(ds, i). [Sub (Num 1) (Div (snd ds) (Spacing (fst ds))),
                                 Div (snd ds) (Spacing (fst ds))] ! nat i) (zip (psym itp) p)"
  have W: "weights itp = Inr ?w" by (rule weights_linear [OF K D P])
  have ip: "interp_points itp = [0, 1]" by (rule interp_points_linear_1 [OF K R])
  have len: "length (psym itp) = length (gdim itp)" using P by (metis length_map)
  have L: "\<exists>l. map_of ?w d = Some l \<and> length l = length (interp_points itp)"
    if "d \<in> set (gdim itp)" for d
  proof -
    from that obtain j where "j < length (gdim itp)" "d = gdim itp ! j"
      by (auto simp: in_set_conv_nth)
    then show ?thesis using map_of_linear [OF D P, of j] ip by simp
  qed
  have F: "sequence_err (map (weight_factor itp) (zip (gdim itp) p)) = Inr (?F p)"
    if p: "p \<in> set (nd_points itp)" for p
  proof -
    have lp: "length p = length (gdim itp)" and sp: "set p \<subseteq> {0, 1}"
      using p ip by (auto simp: set_nd_points grid_dim_def gdim_def)
    have "map (\<lambda>(d, i). the (map_of ?w d) ! list_pos (length (interp_points itp)) i) (zip (gdim itp) p)
          = ?F p"
    proof (rule nth_equalityI)
      show "length (map (\<lambda>(d, i). the (map_of ?w d) ! list_pos (length (interp_points itp)) i)
                        (zip (gdim itp) p)) = length (?F p)"
        using len by simp
    next
      fix j assume "j < length (map (\<lambda>(d, i). the (map_of ?w d) ! list_pos (length (interp_points itp)) i)
                        (zip (gdim itp) p))"
      then have j: "j < length (gdim itp)" using lp by simp
      then have "p ! j \<in> {0, 1}" using sp lp by (metis nth_mem subsetD)
      then have pos: "list_pos (Suc (Suc 0)) (p ! j) = nat (p ! j)" by (auto simp: list_pos_def)
      have fst: "fst (psym itp ! j) = gdim itp ! j" using P j len by (metis nth_map)
      show "map (\<lambda>(d, i). the (map_of ?w d) ! list_pos (length (interp_points itp)) i) (zip (gdim itp) p) ! j
            = ?F p ! j"
        using j lp len map_of_linear [OF D P j] pos ip fst by simp
    qed
    with factors_closed [OF W L p] show ?thesis by simp
  qed
  have "interpolation_coeffs itp = Inr (map (\<lambda>p. prod_py (?F p)) (nd_points itp))"
    by (rule interpolation_coeffs_closed) (rule F)
  then show ?thesis using ip len by (simp add: nd_points_def grid_dim_def gdim_def)
qed


lemma linear_src_facts:
  "kind linear_src = LinearInterpolator" "radius linear_src = 1"
  "distinct (gdim linear_src)" "map fst (psym linear_src) = gdim linear_src"
  by (simp_all add: linear_src_def src_def radius_def gdim_def psym_def)


subsection \<open>The precomputed scheme\<close>

lemma ddim_idim:
  assumes "2 \<le> length (sf_interpolation_coeffs_dimensions (sfunction itp))"
  shows "ddim itp = Inr (sf_interpolation_coeffs_dimensions (sfunction itp) ! 1)"
    and "idim itp = Inr (last (sf_interpolation_coeffs_dimensions (sfunction itp)))"
proof -
  let ?ds = "sf_interpolation_coeffs_dimensions (sfunction itp)"
  show "ddim itp = Inr (?ds ! 1)"
    using assms by (simp add: ddim_def getitem_def list_pos_def)
  have "?ds \<noteq> []" using assms by auto
  then have "last ?ds = ?ds ! (length ?ds - 1)" by (rule last_conv_nth)
  moreover have "nat (int (length ?ds) - 1) = length ?ds - 1" by simp
  ultimately show "idim itp = Inr (last ?ds)"
    using assms by (simp add: idim_def getitem_def list_pos_def)
qed

lemma icoeffs_lookup_closed:
  "2 \<le> length (sf_interpolation_coeffs_dimensions (sfunction itp)) \<Longrightarrow>
   icoeffs_lookup itp di k = Inr (table_entry itp di k)"
  by (simp add: icoeffs_lookup_def ddim_idim table_entry_def)

lemma map_snd_enumerate [simp]: "map snd (enumerate n xs) = xs"
  by (simp add: enumerate_eq_zip)

lemma weights_precomputed:
  assumes K: "kind itp = PrecomputedInterpolator" and D: "distinct (gdim itp)"
    and T: "2 \<le> length (sf_interpolation_coeffs_dimensions (sfunction itp))"
  shows "weights itp
         = Inr (map (\<lambda>(di, d). (d, map (table_entry itp di) (interp_points itp)))
                    (enumerate 0 (gdim itp)))"
proof -
  have "sequence_err
          (map (\<lambda>(di, d). bind_err (sequence_err (map (icoeffs_lookup itp di) (interp_points itp)))
                                    (\<lambda>ws. Inr (d, ws)))
               (enumerate 0 (gdim itp)))
        = Inr (map (\<lambda>(di, d). (d, map (table_entry itp di) (interp_points itp)))
                   (enumerate 0 (gdim itp)))"
  proof (rule sequence_err_all)
    fix x assume "x \<in> set (enumerate 0 (gdim itp))"
    have "sequence_err (map (icoeffs_lookup itp (fst x)) (interp_points itp))
          = Inr (map (table_entry itp (fst x)) (interp_points itp))"
      by (rule sequence_err_all) (rule icoeffs_lookup_closed [OF T])
    then show "(case x of (di, d) \<Rightarrow>
                  bind_err (sequence_err (map (icoeffs_lookup itp di) (interp_points itp)))
                           (\<lambda>ws. Inr (d, ws)))
               = Inr (case x of (di, d) \<Rightarrow> (d, map (table_entry itp di) (interp_points itp)))"
      by (simp add: case_prod_unfold)
  qed
  moreover have "map fst (map (\<lambda>(di, d). (d, map (table_entry itp di) (interp_points itp)))
                              (enumerate 0 (gdim itp))) = gdim itp"
    by (simp add: comp_def case_prod_unfold)
  ultimately show ?thesis
    using K D by (simp add: weights_def dict_of_distinct)
qed

lemma map_of_precomputed:
  assumes D: "distinct (gdim itp)" and J: "j < length (gdim itp)"
  shows "map_of (map (\<lambda>(di, d). (d, map (table_entry itp di) (interp_points itp)))
                     (enumerate 0 (gdim itp))) (gdim itp ! j)
         = Some (map (table_entry itp j) (interp_points itp))"
proof -
  let ?w = "map (\<lambda>(di, d). (d, map (table_entry itp di) (interp_points itp)))
                (enumerate 0 (gdim itp))"
  have d: "distinct (map fst ?w)" using D by (simp add: comp_def case_prod_unfold)
  have "j < length ?w" using J by simp
  then have "?w ! j \<in> set ?w" by (rule nth_mem)
  then have "(gdim itp ! j, map (table_entry itp j) (interp_points itp)) \<in> set ?w"
    using J by (simp add: nth_enumerate_eq del: set_map)
  then show ?thesis by (rule map_of_is_SomeI [OF d])
qed

lemma length_interp_points_precomputed:
  "kind itp = PrecomputedInterpolator \<Longrightarrow> length (interp_points itp) = nat (radius itp)"
  by (simp add: interp_points_precomputed)

lemma precomputed_src_facts:
  "kind (precomputed_src n) = PrecomputedInterpolator" "distinct (gdim (precomputed_src n))"
  "2 \<le> length (sf_interpolation_coeffs_dimensions (sfunction (precomputed_src n)))"
  "radius (precomputed_src n) = n"
  by (simp_all add: precomputed_src_def src_def gdim_def radius_def)

subsection \<open>The index builder\<close>

lemma dict_append_graph:
  "dict_append (map (\<lambda>k. (k, f k)) ks) d x = map (\<lambda>k. (k, (f(d := f d @ [x])) k)) ks"
  by (simp add: dict_append_def comp_def)

lemma index_body_step:
  "index_body itp ids d pos (m, t) (s, x)
   = (dict_append m d (guarded_dim itp d s), t @ [index_eq itp ids d pos (s, x)])"
  by (simp add: index_body_def guarded_dim_def index_eq_def Let_def)

lemma index_inner:
  "foldl (index_body itp ids d pos) (map (\<lambda>k. (k, f k)) ks, t) (enumerate s xs)
   = (map (\<lambda>k. (k, (f(d := f d @ map (guarded_dim itp d) [s..<s + length xs])) k)) ks,
      t @ map (index_eq itp ids d pos) (enumerate s xs))"
proof (induction xs arbitrary: s f t)
  case Nil
  show ?case by simp
next
  case (Cons x xs)
  have upt: "[s..<Suc (s + length xs)] = s # [Suc s..<Suc (s + length xs)]"
    by (rule upt_conv_Cons) simp
  show ?case
    by (simp add: index_body_step dict_append_graph Cons.IH upt del: upt_Suc)
qed

lemma index_outer:
  "distinct ds \<Longrightarrow>
   foldl (\<lambda>st ((di, d), pos). foldl (index_body itp ids d pos) st (enumerate 0 pts))
         (map (\<lambda>k. (k, f k)) ks, t) (zip (enumerate s ds) ps)
   = (map (\<lambda>k. (k, if k \<in> set (take (length ps) ds)
                    then f k @ map (guarded_dim itp k) [0..<length pts] else f k)) ks,
      t @ concat (map (\<lambda>(d, pos). map (index_eq itp ids d pos) (enumerate 0 pts)) (zip ds ps)))"
proof (induction ds arbitrary: s ps f t)
  case Nil
  show ?case by simp
next
  case (Cons d ds)
  show ?case
  proof (cases ps)
    case Nil
    then show ?thesis by simp
  next
    case (Cons pos ps')
    have nd: "d \<notin> set (take (length ps') ds)" and dd: "distinct ds"
      using Cons.prems by (auto dest: in_set_takeD)
    have "(if k \<in> set (take (length ps') ds)
           then (f(d := f d @ map (guarded_dim itp d) [0..<length pts])) k
                @ map (guarded_dim itp k) [0..<length pts]
           else (f(d := f d @ map (guarded_dim itp d) [0..<length pts])) k)
          = (if k \<in> set (take (length (pos # ps')) (d # ds))
             then f k @ map (guarded_dim itp k) [0..<length pts] else f k)" for k
      using nd by auto
    then show ?thesis
      using nd by (simp add: Cons index_inner Cons.IH [OF dd])
  qed
qed

lemma index_loop_closed:
  assumes "distinct (gdim itp)"
    and "length (gdim itp) \<le> length (sf_coordinate_indices (sfunction itp))"
  shows "index_loop itp ids (dict_of (map (\<lambda>d. (d, [])) (gdim itp)), t)
         = (map (\<lambda>d. (d, map (guarded_dim itp d) [0..<length (interp_points itp)])) (gdim itp),
            t @ index_eqs itp ids)"
proof -
  let ?pm = "sf_coordinate_indices (sfunction itp)"
  have deq: "dict_of (map (\<lambda>d. (d, [])) (gdim itp)) = map (\<lambda>d. (d, [])) (gdim itp)"
    using assms(1) by (simp add: dict_of_distinct comp_def)
  have tk: "take (length ?pm) (gdim itp) = gdim itp"
    using assms(2) by simp
  have A: "index_loop itp ids (map (\<lambda>d. (d, [])) (gdim itp), t)
           = (map (\<lambda>k. (k, if k \<in> set (take (length ?pm) (gdim itp))
                            then [] @ map (guarded_dim itp k) [0..<length (interp_points itp)]
                            else [])) (gdim itp),
              t @ index_eqs itp ids)"
    unfolding index_loop_def index_eqs_def by (rule index_outer [OF assms(1)])
  have m: "map (\<lambda>k. (k, if k \<in> set (take (length ?pm) (gdim itp))
                            then [] @ map (guarded_dim itp k) [0..<length (interp_points itp)]
                            else [])) (gdim itp)
           = map (\<lambda>d. (d, map (guarded_dim itp d) [0..<length (interp_points itp)])) (gdim itp)"
    by (rule map_cong [OF refl]) (simp add: tk)
  show ?thesis by (simp only: deq A m)
qed

lemma zip_map_fst: "zip (map f xs) ys = map (\<lambda>(x, y). (f x, y)) (zip xs ys)"
  by (induction xs arbitrary: ys) (auto split: list.splits simp: zip_Cons1)

lemma idx_sub_closed:
  assumes D: "distinct (gdim itp)" and P: "p \<in> set (nd_points itp)"
  shows "idx_sub (map (\<lambda>d. (d, map (guarded_dim itp d) [0..<length (interp_points itp)])) (gdim itp))
                 variables p
         = Inr (neighbour_subs itp variables p)"
proof -
  let ?n = "length (interp_points itp)"
  let ?mapper = "map (\<lambda>d. (d, map (guarded_dim itp d) [0..<?n])) (gdim itp)"
  have inner: "sequence_err
                 (map (\<lambda>((k, c), pi). bind_err (getitem c pi) (\<lambda>cp. Inr (k, Sub cp (origin_get v k))))
                      (zip ?mapper p))
               = Inr (dimension_subs itp v p)" for v
  proof -
    have "sequence_err
            (map (\<lambda>(d, i). bind_err (getitem (map (guarded_dim itp d) [0..<?n]) i)
                                    (\<lambda>cp. Inr (d, Sub cp (origin_get v d))))
                 (zip (gdim itp) p))
          = Inr (map (\<lambda>(d, i). (d, Sub (guarded_dim itp d (list_pos ?n i)) (origin_get v d)))
                     (zip (gdim itp) p))"
    proof (rule sequence_err_all)
      fix x assume x: "x \<in> set (zip (gdim itp) p)"
      obtain d i where di: "x = (d, i)" by (cases x)
      from x di have "i \<in> set p" by (auto dest: set_zip_rightD)
      with P have "i \<in> set (interp_points itp)" by (auto simp: set_nd_points)
      then have r: "- int ?n \<le> i" "i < int ?n" using interp_points_in_range by auto
      then have "list_pos ?n i < ?n" by (rule list_pos_less)
      then show "(case x of (d, i) \<Rightarrow>
                    bind_err (getitem (map (guarded_dim itp d) [0..<?n]) i)
                             (\<lambda>cp. Inr (d, Sub cp (origin_get v d))))
                 = Inr (case x of (d, i) \<Rightarrow>
                          (d, Sub (guarded_dim itp d (list_pos ?n i)) (origin_get v d)))"
        using r di by (simp add: getitem_def)
    qed
    then show ?thesis
      by (simp add: zip_map_fst comp_def case_prod_unfold dimension_subs_def)
  qed
  show ?thesis
    by (simp add: idx_sub_def inner neighbour_subs_def)
qed

lemma coeff_temps_ok:
  assumes "well_formed itp"
  shows "\<exists>ct. coeff_temps itp ids = Inr ct"
proof (cases "kind itp")
  case WeightedInterpolation
  then show ?thesis by (simp add: coeff_temps_def)
next
  case PrecomputedInterpolator
  then show ?thesis by (simp add: coeff_temps_def)
next
  case LinearInterpolator
  let ?g = "\<lambda>(d, pos). bind_err (dict_get (psym itp) d) (\<lambda>p.
              Inr (Eq p (Sub pos (Mul (Spacing d) (INT_cast (Floor (Div pos (Spacing d)))))) ids))"
  let ?f = "\<lambda>(d, pos). Eq (the (map_of (psym itp) d))
                             (Sub pos (Mul (Spacing d) (INT_cast (Floor (Div pos (Spacing d)))))) ids"
  have P: "map fst (psym itp) = gdim itp"
    using assms LinearInterpolator by (simp add: well_formed_def)
  have "sequence_err (map ?g (zip (gdim itp) (map snd (sf_position_map (sfunction itp)))))
        = Inr (map ?f (zip (gdim itp) (map snd (sf_position_map (sfunction itp)))))"
  proof (rule sequence_err_all)
    fix x assume x: "x \<in> set (zip (gdim itp) (map snd (sf_position_map (sfunction itp))))"
    obtain d pos where dp: "x = (d, pos)" by (cases x)
    from x dp have "d \<in> set (gdim itp)" by (auto dest: set_zip_leftD)
    then have "d \<in> fst ` set (psym itp)" using P by (metis set_map)
    then obtain e where "map_of (psym itp) d = Some e"
      by (metis domD dom_map_of_conv_image_fst)
    then show "?g x = Inr (?f x)" using dp by (simp add: dict_get_def)
  qed
  then show ?thesis using LinearInterpolator by (simp add: coeff_temps_def)
qed

lemma interpolation_indices_closed:
  assumes W: "well_formed itp" and C: "coeff_temps itp ids = Inr ct"
  shows "interpolation_indices itp variables offset field_offset ids
         = Inr (map (neighbour_subs itp variables) (nd_points itp),
                positions itp ids @ ct @ index_eqs itp ids)"
proof -
  have D: "distinct (gdim itp)"
    and L: "length (gdim itp) \<le> length (sf_coordinate_indices (sfunction itp))"
    using W by (simp_all add: well_formed_def)
  have S: "sequence_err
             (map (idx_sub (map (\<lambda>d. (d, map (guarded_dim itp d) [0..<length (interp_points itp)]))
                                (gdim itp)) variables)
                  (nd_points itp))
           = Inr (map (neighbour_subs itp variables) (nd_points itp))"
    by (rule sequence_err_all) (rule idx_sub_closed [OF D])
  show ?thesis
    by (simp add: interpolation_indices_def C index_loop_closed [OF D L] S)
qed

lemma holds_condition:
  "holds env (condition itp d (Symbol n t))
   \<longleftrightarrow> env (Symbolic_min d) - of_int (radius itp) \<le> env (Symbol n t) \<and>
       env (Symbol n t) \<le> env (Symbolic_max d) + of_int (radius itp)"
  by (simp add: condition_def Let_def)

lemma index_eq_in_index_eqs:
  assumes "j < length (gdim itp)" and "j < length (sf_coordinate_indices (sfunction itp))"
    and "ri < length (interp_points itp)"
  shows "index_eq itp ids (gdim itp ! j) (sf_coordinate_indices (sfunction itp) ! j)
           (ri, interp_points itp ! ri) \<in> set (index_eqs itp ids)"
proof -
  let ?z = "zip (gdim itp) (sf_coordinate_indices (sfunction itp))"
  have "j < length ?z" using assms by simp
  then have "?z ! j \<in> set ?z" by (rule nth_mem)
  then have a: "(gdim itp ! j, sf_coordinate_indices (sfunction itp) ! j) \<in> set ?z"
    using assms by simp
  have "ri < length (enumerate 0 (interp_points itp))" using assms by simp
  then have "enumerate 0 (interp_points itp) ! ri \<in> set (enumerate 0 (interp_points itp))"
    by (rule nth_mem)
  then have b: "(ri, interp_points itp ! ri) \<in> set (enumerate 0 (interp_points itp))"
    using assms by (simp add: nth_enumerate_eq)
  show ?thesis
    unfolding index_eqs_def using a b by (auto intro!: bexI [of _ "(gdim itp ! j, sf_coordinate_indices (sfunction itp) ! j)"])
qed

lemma map_of_dict_set: "map_of (dict_set m k v) = (map_of m)(k \<mapsto> v)"
  by (induction m) (auto simp: fun_eq_iff)

lemma map_of_foldl_graph:
  "map_of (foldl (\<lambda>m (k, v). dict_set m k v) m (map (\<lambda>v. (v, F v)) vs)) x
   = (if x \<in> set vs then Some (F x) else map_of m x)"
  by (induction vs arbitrary: m) (auto simp: map_of_dict_set)

lemma dict_get_dict_of_graph:
  "v \<in> set vs \<Longrightarrow> dict_get (dict_of (map (\<lambda>v. (v, F v)) vs)) v = Inr (F v)"
  by (simp add: dict_get_def dict_of_def map_of_foldl_graph)

lemma fst_dimension_subs:
  "length p = length (gdim itp) \<Longrightarrow> map fst (dimension_subs itp v p) = gdim itp"
  by (simp add: dimension_subs_def comp_def case_prod_unfold)

lemma dict_of_dimension_subs:
  "distinct (gdim itp) \<Longrightarrow> length p = length (gdim itp) \<Longrightarrow>
   dict_of (dimension_subs itp v p) = dimension_subs itp v p"
  by (rule dict_of_distinct) (simp add: fst_dimension_subs)

lemma dimension_subs_entries:
  assumes P: "p \<in> set (nd_points itp)" and E: "(d, e) \<in> set (dimension_subs itp v p)"
  shows "\<exists>ri < length (interp_points itp). e = Sub (guarded_dim itp d ri) (origin_get v d)"
proof -
  from E obtain i where i: "(d, i) \<in> set (zip (gdim itp) p)"
    and e: "e = Sub (guarded_dim itp d (list_pos (length (interp_points itp)) i)) (origin_get v d)"
    by (auto simp: dimension_subs_def)
  from i have "i \<in> set p" by (auto dest: set_zip_rightD)
  with P have "i \<in> set (interp_points itp)" by (auto simp: set_nd_points)
  then have "list_pos (length (interp_points itp)) i < length (interp_points itp)"
    using interp_points_in_range list_pos_less by blast
  with e show ?thesis by blast
qed

lemma dims_of_subs:
  "dims_of (subs s e) \<subseteq> (dims_of e - fst ` set s) \<union> (\<Union>x \<in> snd ` set s. dims_of x)"
proof (induction s e rule: subs.induct)
  case (1 s d)
  show ?case
  proof (cases "map_of s d")
    case None
    moreover from None have "d \<notin> fst ` set s" by (simp add: map_of_eq_None_iff)
    ultimately show ?thesis by simp
  next
    case (Some x)
    then have "(d, x) \<in> set s" by (rule map_of_SomeD)
    then have "x \<in> snd ` set s" by force
    with Some show ?thesis by auto
  qed
qed (simp; blast)+

lemma linear_src_well_formed: "well_formed linear_src"
  by (simp add: well_formed_def linear_src_def src_def gdim_def psym_def)

subsection \<open>Weights against substitutions\<close>

lemma weights_ok:
  assumes W: "well_formed itp" and O: "one_weight_per_offset itp"
  shows "\<exists>w. weights itp = Inr w \<and>
           (\<forall>d \<in> set (gdim itp). \<exists>l. map_of w d = Some l \<and> length l = length (interp_points itp))"
proof -
  have D: "distinct (gdim itp)" using W by (simp add: well_formed_def)
  from O consider
    (pre) "kind itp = PrecomputedInterpolator"
          "2 \<le> length (sf_interpolation_coeffs_dimensions (sfunction itp))"
    | (lin) "kind itp = LinearInterpolator" "radius itp = 1"
    by (auto simp: one_weight_per_offset_def)
  then show ?thesis
  proof cases
    case pre
    let ?w = "map (\<lambda>(di, d). (d, map (table_entry itp di) (interp_points itp)))
                  (enumerate 0 (gdim itp))"
    have "weights itp = Inr ?w" by (rule weights_precomputed [OF pre(1) D pre(2)])
    moreover have "\<exists>l. map_of ?w d = Some l \<and> length l = length (interp_points itp)"
      if "d \<in> set (gdim itp)" for d
    proof -
      from that obtain j where "j < length (gdim itp)" "d = gdim itp ! j"
        by (auto simp: in_set_conv_nth)
      then show ?thesis using map_of_precomputed [OF D, of j] by simp
    qed
    ultimately show ?thesis by blast
  next
    case lin
    have P: "map fst (psym itp) = gdim itp" using W lin by (simp add: well_formed_def)
    let ?w = "map (\<lambda>(d, p). (d, [Sub (Num 1) (Div p (Spacing d)), Div p (Spacing d)])) (psym itp)"
    have "weights itp = Inr ?w" by (rule weights_linear [OF lin(1) D P])
    moreover have "\<exists>l. map_of ?w d = Some l \<and> length l = length (interp_points itp)"
      if "d \<in> set (gdim itp)" for d
    proof -
      from that obtain j where "j < length (gdim itp)" "d = gdim itp ! j"
        by (auto simp: in_set_conv_nth)
      then show ?thesis
        using map_of_linear [OF D P, of j] interp_points_linear_1 [OF lin] by simp
    qed
    ultimately show ?thesis by blast
  qed
qed

lemma interpolation_coeffs_neighbour:
  assumes Wt: "weights itp = Inr w"
    and L: "\<forall>d \<in> set (gdim itp). \<exists>l. map_of w d = Some l \<and> length l = length (interp_points itp)"
  shows "interpolation_coeffs itp = Inr (map (neighbour_weight itp w) (nd_points itp))"
proof -
  have "interpolation_coeffs itp
        = Inr (map (\<lambda>p. prod_py (map (\<lambda>(d, i). the (map_of w d) ! list_pos (length (interp_points itp)) i)
                                      (zip (gdim itp) p)))
                   (nd_points itp))"
    by (rule interpolation_coeffs_closed) (rule factors_closed [OF Wt], use L in blast)
  moreover have "prod_py (map (\<lambda>(d, i). the (map_of w d) ! list_pos (length (interp_points itp)) i)
                                      (zip (gdim itp) p))
                 = neighbour_weight itp w p" for p
  proof -
    have "map (\<lambda>(d, i). the (map_of w d) ! list_pos (length (interp_points itp)) i) (zip (gdim itp) p)
          = map (\<lambda>(d, i). weight_list w d ! list_pos (length (interp_points itp)) i) (zip (gdim itp) p)"
    proof (rule map_cong [OF refl])
      fix x assume xin: "x \<in> set (zip (gdim itp) p)"
      obtain d i where x: "x = (d, i)" by (cases x)
      from xin x have "fst x \<in> set (gdim itp)" by (auto dest: set_zip_leftD)
      with L obtain l where "map_of w (fst x) = Some l" by blast
      then show "(case x of (d, i) \<Rightarrow> the (map_of w d) ! list_pos (length (interp_points itp)) i)
                 = (case x of (d, i) \<Rightarrow> weight_list w d ! list_pos (length (interp_points itp)) i)"
        by (simp add: case_prod_unfold weight_list_def)
    qed
    then show ?thesis by (simp only: neighbour_weight_def)
  qed
  ultimately show ?thesis by simp
qed

lemma precomputed_src_ok:
  "well_formed (precomputed_src n)" "one_weight_per_offset (precomputed_src n)"
  by (simp_all add: well_formed_def one_weight_per_offset_def precomputed_src_def src_def gdim_def)

subsection \<open>The callbacks of interpolate and inject\<close>







lemma getitem_empty: "getitem [] i = Inl IndexError"
  by (simp add: getitem_def)






lemma xreplace_key: "map_of rule e = Some e' \<Longrightarrow> xreplace rule e = e'"
  by (subst xreplace.simps) simp



subsection \<open>Flattening and forcing\<close>

lemma flatten_append: "flatten (xs @ ys) = flatten xs @ flatten ys"
  by (induction xs rule: flatten.induct) simp_all

lemma flatten_leaves: "list_all is_leaf l \<Longrightarrow> flatten l = l"
  by (induction l rule: flatten.induct) simp_all

lemma is_leaf_flatten: "list_all is_leaf (flatten xs)"
  by (induction xs rule: flatten.induct) simp_all

lemma flatten_operands_first:
  "operand a \<Longrightarrow> operand b \<Longrightarrow> py_add a b = Inr (List (flatten [a, b]))"
  by (cases a; cases b) (simp_all add: add_op_def radd_op_def flatten_leaves)

lemma combine_list:
  "list_all operand bs \<Longrightarrow> list_all is_leaf l \<Longrightarrow>
   combine (List l) bs = Inr (List (l @ flatten bs))"
proof (induction bs arbitrary: l)
  case Nil
  show ?case by simp
next
  case (Cons b bs)
  from Cons.prems have b: "operand b" and bs: "list_all operand bs" by simp_all
  show ?case
  proof (cases b)
    case (Operation obj)
    have "list_all is_leaf (l @ [Operation obj])" using Cons.prems(2) by simp
    from Cons.IH [OF bs this] show ?thesis
      using Cons.prems(2) by (simp add: Operation radd_op_def flatten_leaves)
  next
    case (Expr e)
    with b show ?thesis by simp
  next
    case (List y)
    with b have y: "list_all is_leaf y" by simp
    then have "list_all is_leaf (l @ y)" using Cons.prems(2) by simp
    from Cons.IH [OF bs this] show ?thesis
      using y by (simp add: List flatten_leaves)
  qed
qed

lemma combine_operands:
  assumes "list_all operand (a # b # bs)"
  shows "combine a (b # bs) = Inr (List (flatten (a # b # bs)))"
proof -
  from assms have a: "operand a" and b: "operand b" and bs: "list_all operand bs" by simp_all
  have "combine a (b # bs) = combine (List (flatten [a, b])) bs"
    by (simp add: flatten_operands_first [OF a b])
  also have "\<dots> = Inr (List (flatten [a, b] @ flatten bs))"
    by (rule combine_list [OF bs is_leaf_flatten])
  also have "flatten [a, b] @ flatten bs = flatten (a # b # bs)"
    using flatten_append [of "[a, b]" bs] by simp
  finally show ?thesis .
qed

lemma bind_err_Inr_right [simp]: "bind_err m Inr = m"
  by (cases m) simp_all

lemma force_List: "force (List l) = force_all l"
  by (simp add: force_all_def)

lemma force_all_Nil [simp]: "force_all [] = Inr []"
  by (simp add: force_all_def)

lemma force_all_Cons:
  "force_all (x # xs) = bind_err (force x) (\<lambda>a. bind_err (force_all xs) (\<lambda>b. Inr (a @ b)))"
  by (cases "force x"; cases "sequence_err (map force xs)") (simp_all add: force_all_def)

lemma force_all_append:
  "force_all (xs @ ys) = bind_err (force_all xs) (\<lambda>a. bind_err (force_all ys) (\<lambda>b. Inr (a @ b)))"
proof (induction xs)
  case Nil
  show ?case by (cases "force_all ys") simp_all
next
  case (Cons x xs)
  show ?case
    by (cases "force x"; cases "force_all xs"; cases "force_all ys")
       (simp_all add: force_all_Cons Cons.IH)
qed

lemma force_all_flatten: "force_all (flatten xs) = force_all xs"
proof (induction xs rule: flatten.induct)
  case 1
  show ?case by simp
next
  case (2 l xs)
  then show ?case by (simp add: force_all_append force_all_Cons force_List del: force.simps(3))
next
  case (3 obj xs)
  then show ?case by (simp add: force_all_Cons)
next
  case (4 e xs)
  then show ?case by (simp add: force_all_Cons)
qed

lemma py_add_assoc:
  assumes x: "operand x" and y: "operand y" and z: "operand z"
  shows "bind_err (py_add x y) (\<lambda>u. py_add u z) = Inr (List (flatten [x, y, z]))"
    and "bind_err (py_add y z) (\<lambda>v. py_add x v) = Inr (List (flatten [x, y, z]))"
proof -
  show "bind_err (py_add x y) (\<lambda>u. py_add u z) = Inr (List (flatten [x, y, z]))"
    using combine_operands [of x y "[z]"] x y z by simp
  have yz: "py_add y z = Inr (List (flatten [y, z]))" by (rule flatten_operands_first [OF y z])
  have o: "operand (List (flatten [y, z]))" by (simp add: is_leaf_flatten)
  have "py_add x (List (flatten [y, z])) = Inr (List (flatten [x, List (flatten [y, z])]))"
    by (rule flatten_operands_first [OF x o])
  moreover have "flatten [x, List (flatten [y, z])] = flatten [x, y, z]"
    using flatten_append [of "[x]" "[List (flatten [y, z])]"] flatten_append [of "[x]" "[y, z]"]
          flatten_leaves [OF is_leaf_flatten, of "[y, z]"]
    by simp
  ultimately show "bind_err (py_add y z) (\<lambda>v. py_add x v) = Inr (List (flatten [x, y, z]))"
    by (simp add: yz)
qed

subsection \<open>Accesses after substitution\<close>

lemma access_dims_subset: "access_dims e \<subseteq> dims_of e"
  by (induction e rule: access_dims.induct) auto

lemma xreplace_None:
  "map_of rule e = None \<Longrightarrow>
   xreplace rule e =
     (case e of
        Add a b \<Rightarrow> Add (xreplace rule a) (xreplace rule b)
      | Sub a b \<Rightarrow> Sub (xreplace rule a) (xreplace rule b)
      | Mul a b \<Rightarrow> Mul (xreplace rule a) (xreplace rule b)
      | Div a b \<Rightarrow> Div (xreplace rule a) (xreplace rule b)
      | Ge a b \<Rightarrow> Ge (xreplace rule a) (xreplace rule b)
      | Le a b \<Rightarrow> Le (xreplace rule a) (xreplace rule b)
      | And cs \<Rightarrow> And (map (xreplace rule) cs)
      | INT_cast a \<Rightarrow> INT_cast (xreplace rule a)
      | Floor a \<Rightarrow> Floor (xreplace rule a)
      | Fn f idx org \<Rightarrow> Fn f (map (xreplace rule) idx) org
      | Eq l r ds \<Rightarrow> Eq (xreplace rule l) (xreplace rule r) ds
      | Inc l r ds \<Rightarrow> Inc (xreplace rule l) (xreplace rule r) ds
      | _ \<Rightarrow> e)"
  by (subst xreplace.simps) simp

lemma access_cases:
  assumes R: "\<forall>v' \<in> snd ` set rule. dims_of v' \<inter> G = {}"
    and N: "map_of rule e = None \<Longrightarrow> access_dims (xreplace rule e) \<inter> G = {}"
  shows "access_dims (xreplace rule e) \<inter> G = {}"
proof (cases "map_of rule e")
  case None
  then show ?thesis by (rule N)
next
  case (Some e')
  then have "(e, e') \<in> set rule" by (rule map_of_SomeD)
  then have "e' \<in> snd ` set rule" by force
  then have "dims_of e' \<inter> G = {}" using R by blast
  moreover have "xreplace rule e = e'" using Some by (rule xreplace_key)
  ultimately show ?thesis using access_dims_subset [of e'] by auto
qed

lemma xreplace_access:
  assumes R: "\<forall>v' \<in> snd ` set rule. dims_of v' \<inter> G = {}"
  shows "set (retrieve_function_carriers e) \<subseteq> fst ` set rule \<Longrightarrow>
         access_dims (xreplace rule e) \<inter> G = {}"
proof (induction e)
  case (Fn f idx org)
  show ?case
  proof (rule access_cases [OF R])
    assume "map_of rule (Fn f idx org) = None"
    then have "Fn f idx org \<notin> fst ` set rule" by (simp add: map_of_eq_None_iff)
    with Fn.prems show "access_dims (xreplace rule (Fn f idx org)) \<inter> G = {}" by simp
  qed
next
  case (And cs)
  show ?case
  proof (rule access_cases [OF R])
    assume N: "map_of rule (And cs) = None"
    have "access_dims (xreplace rule c) \<inter> G = {}" if "c \<in> set cs" for c
      using And.IH [OF that] And.prems that by auto
    then show "access_dims (xreplace rule (And cs)) \<inter> G = {}"
      by (simp add: xreplace_None [OF N]) blast
  qed
qed (rule access_cases [OF R], simp add: xreplace_None Int_Un_distrib2)+

lemma set_dict_set: "set (dict_set m k v) \<subseteq> insert (k, v) (set m)"
  by (induction m) (auto split: if_splits)

lemma fst_set_dict_set: "fst ` set (dict_set m k v) = insert k (fst ` set m)"
  by (simp add: dom_map_of_conv_image_fst [symmetric] map_of_dict_set)

lemma set_foldl_dict_set:
  "set (foldl (\<lambda>m (k, v). dict_set m k v) m kvs) \<subseteq> set m \<union> set kvs"
proof (induction kvs arbitrary: m)
  case Nil
  show ?case by simp
next
  case (Cons kv kvs)
  obtain k v where kv: "kv = (k, v)" by (cases kv)
  show ?case using Cons.IH [of "dict_set m k v"] set_dict_set [of m k v] kv by auto
qed

lemma fst_set_foldl_dict_set:
  "fst ` set (foldl (\<lambda>m (k, v). dict_set m k v) m kvs) = fst ` set m \<union> fst ` set kvs"
proof (induction kvs arbitrary: m)
  case Nil
  show ?case by simp
next
  case (Cons kv kvs)
  obtain k v where kv: "kv = (k, v)" by (cases kv)
  show ?case using Cons.IH [of "dict_set m k v"] kv by (simp add: fst_set_dict_set)
qed

lemma neighbour_subs_keys: "fst ` set (neighbour_subs itp variables p) = set variables"
  by (simp add: neighbour_subs_def dict_of_def fst_set_foldl_dict_set image_image)

lemma neighbour_subs_values:
  "x \<in> snd ` set (neighbour_subs itp variables p) \<Longrightarrow>
   \<exists>v \<in> set variables. x = subs (dict_of (dimension_subs itp v p)) v"
  using set_foldl_dict_set
          [of "[]" "map (\<lambda>v. (v, subs (dict_of (dimension_subs itp v p)) v)) variables"]
  by (auto simp: neighbour_subs_def dict_of_def)

lemma dims_subs_guarded:
  assumes D: "distinct (gdim itp)" and P: "p \<in> set (nd_points itp)"
    and org: "\<forall>d \<in> set (gdim itp). dims_of (origin_get v d) \<inter> set (gdim itp) = {}"
  shows "dims_of (subs (dimension_subs itp v p) v) \<inter> set (gdim itp) = {}"
proof -
  let ?s = "dimension_subs itp v p"
  have lp: "length p = length (gdim itp)"
    using P by (simp add: set_nd_points grid_dim_def gdim_def)
  have f: "fst ` set ?s = set (gdim itp)"
    using arg_cong [OF fst_dimension_subs [OF lp, of v], of set] by (simp only: set_map)
  have vals: "dims_of x \<inter> set (gdim itp) = {}" if "x \<in> snd ` set ?s" for x
  proof -
    from that obtain d where de: "(d, x) \<in> set ?s" by force
    then have "d \<in> fst ` set ?s" by force
    then have "d \<in> set (gdim itp)" by (simp only: f)
    moreover from dimension_subs_entries [OF P de]
    obtain ri where "x = Sub (guarded_dim itp d ri) (origin_get v d)" by blast
    ultimately show ?thesis using org by (simp add: guarded_dim_def)
  qed
  show ?thesis
  proof (rule ccontr)
    assume "dims_of (subs ?s v) \<inter> set (gdim itp) \<noteq> {}"
    then obtain d where d1: "d \<in> dims_of (subs ?s v)" and d2: "d \<in> set (gdim itp)"
      by blast
    from d1 dims_of_subs [of ?s v]
    have "d \<in> dims_of v - fst ` set ?s \<or> d \<in> (\<Union>x \<in> snd ` set ?s. dims_of x)"
      by blast
    then show False
    proof
      assume "d \<in> dims_of v - fst ` set ?s"
      then show False using d2 by (simp add: f)
    next
      assume "d \<in> (\<Union>x \<in> snd ` set ?s. dims_of x)"
      then obtain x where "x \<in> snd ` set ?s" "d \<in> dims_of x" by blast
      then show False using vals [of x] d2 by blast
    qed
  qed
qed

lemma guarded_after_xreplace:
  assumes D: "distinct (gdim itp)" and P: "p \<in> set (nd_points itp)"
    and K: "set (retrieve_function_carriers e) \<subseteq> set variables"
    and org: "\<forall>v \<in> set variables. \<forall>d \<in> set (gdim itp).
                dims_of (origin_get v d) \<inter> set (gdim itp) = {}"
  shows "access_dims (xreplace (neighbour_subs itp variables p) e) \<inter> set (gdim itp) = {}"
proof (rule xreplace_access)
  have lp: "length p = length (gdim itp)"
    using P by (simp add: set_nd_points grid_dim_def gdim_def)
  show "\<forall>v' \<in> snd ` set (neighbour_subs itp variables p). dims_of v' \<inter> set (gdim itp) = {}"
  proof
    fix x assume "x \<in> snd ` set (neighbour_subs itp variables p)"
    from neighbour_subs_values [OF this] obtain v where v: "v \<in> set variables"
      and x: "x = subs (dict_of (dimension_subs itp v p)) v" by blast
    from org v have "\<forall>d \<in> set (gdim itp). dims_of (origin_get v d) \<inter> set (gdim itp) = {}"
      by blast
    from dims_subs_guarded [OF D P this] x show "dims_of x \<inter> set (gdim itp) = {}"
      by (simp add: dict_of_dimension_subs [OF D lp])
  qed
  show "set (retrieve_function_carriers e) \<subseteq> fst ` set (neighbour_subs itp variables p)"
    using K by (simp only: neighbour_subs_keys)
qed

section \<open>The analytic-linear weights\<close>



text \<open>
  Claim C7, as stated for every radius, fails: at radius 2 the offsets of an axis are
  \<open>-1, 0, 1, 2\<close>, the linear scheme has two weights per axis, and the offset 2 used as
  list index raises \<^verbatim>\<open>IndexError\<close>, so no weight list is produced.
\<close>

theorem linear_weight_count_counterexample:
  "\<not> (\<exists>ws. interpolation_coeffs \<lparr> kind = LinearInterpolator, sfunction = src \<lparr> sf_r := 2 \<rparr> \<rparr> = Inr ws
          \<and> length ws = 2 ^ grid_dim \<lparr> kind = LinearInterpolator, sfunction = src \<lparr> sf_r := 2 \<rparr> \<rparr>)"
proof -
  have "interpolation_coeffs \<lparr> kind = LinearInterpolator, sfunction = src \<lparr> sf_r := 2 \<rparr> \<rparr>
        = Inl IndexError"
    by code_simp
  then show ?thesis by simp
qed

text \<open>
  Claim C7, amended. At radius 1, for a grid of dimension \<open>d\<close>, the linear scheme produces
  exactly \<open>2\<^sup>d\<close> neighbour weights, each the product of exactly \<open>d\<close> factors, the \<open>j\<close>-th
  factor being one of the two weights of axis \<open>j\<close>.
\<close>

theorem linear_weight_count:
  assumes K: "kind itp = LinearInterpolator" and R: "radius itp = 1"
    and D: "distinct (gdim itp)" and P: "map fst (psym itp) = gdim itp"
  shows "\<exists>ws. interpolation_coeffs itp = Inr ws \<and> length ws = 2 ^ grid_dim itp \<and>
           (\<forall>k < 2 ^ grid_dim itp. \<exists>fs. length fs = grid_dim itp \<and> ws ! k = prod_py fs \<and>
              (\<forall>j < grid_dim itp.
                 fs ! j = Sub (Num 1) (Div (snd (psym itp ! j)) (Spacing (gdim itp ! j))) \<or>
                 fs ! j = Div (snd (psym itp ! j)) (Spacing (gdim itp ! j))))"
proof -
  let ?F = "\<lambda>p. map (\<lambda>(ds, i). [Sub (Num 1) (Div (snd ds) (Spacing (fst ds))),
                                 Div (snd ds) (Spacing (fst ds))] ! nat i) (zip (psym itp) p)"
  let ?nd = "product_repeat [0, 1 :: int] (length (psym itp))"
  have len: "length (psym itp) = grid_dim itp"
    using P by (metis length_map grid_dim_def gdim_def)
  have C: "interpolation_coeffs itp = Inr (map (\<lambda>p. prod_py (?F p)) ?nd)"
    by (rule linear_coeffs [OF K R D P])
  have n: "length (map (\<lambda>p. prod_py (?F p)) ?nd) = 2 ^ grid_dim itp"
    using len by (simp add: numeral_2_eq_2)
  have each: "\<exists>fs. length fs = grid_dim itp \<and> map (\<lambda>p. prod_py (?F p)) ?nd ! k = prod_py fs \<and>
              (\<forall>j < grid_dim itp.
                 fs ! j = Sub (Num 1) (Div (snd (psym itp ! j)) (Spacing (gdim itp ! j))) \<or>
                 fs ! j = Div (snd (psym itp ! j)) (Spacing (gdim itp ! j)))"
    if k: "k < 2 ^ grid_dim itp" for k
  proof -
    have kk: "k < length ?nd" using k len by (simp add: numeral_2_eq_2)
    then have "?nd ! k \<in> set ?nd" by (rule nth_mem)
    then have lp: "length (?nd ! k) = grid_dim itp" and sp: "set (?nd ! k) \<subseteq> {0, 1}"
      using len by (auto simp: set_product_repeat)
    have fj: "?F (?nd ! k) ! j = Sub (Num 1) (Div (snd (psym itp ! j)) (Spacing (gdim itp ! j))) \<or>
              ?F (?nd ! k) ! j = Div (snd (psym itp ! j)) (Spacing (gdim itp ! j))"
      if j: "j < grid_dim itp" for j
    proof -
      have "(?nd ! k) ! j \<in> {0, 1}" using sp lp j by (metis nth_mem subsetD)
      moreover have "fst (psym itp ! j) = gdim itp ! j"
        using P j len by (metis nth_map)
      ultimately show ?thesis using j lp len by auto
    qed
    show ?thesis
      apply (rule exI [of _ "?F (?nd ! k)"])
      using kk lp len fj by simp
  qed
  show ?thesis using C n each by blast
qed

theorem linear_weight_count_witness:
  "kind linear_src = LinearInterpolator \<and> radius linear_src = 1 \<and>
   distinct (gdim linear_src) \<and> map fst (psym linear_src) = gdim linear_src \<and>
   (\<exists>ws. interpolation_coeffs linear_src = Inr ws \<and> length ws = 2 ^ grid_dim linear_src \<and>
      (\<forall>k < 2 ^ grid_dim linear_src. \<exists>fs. length fs = grid_dim linear_src \<and> ws ! k = prod_py fs \<and>
         (\<forall>j < grid_dim linear_src.
            fs ! j = Sub (Num 1) (Div (snd (psym linear_src ! j)) (Spacing (gdim linear_src ! j))) \<or>
            fs ! j = Div (snd (psym linear_src ! j)) (Spacing (gdim linear_src ! j)))))"
  using linear_src_facts linear_weight_count [OF linear_src_facts] by blast

section \<open>The precomputed offsets\<close>

text \<open>
  Claim C8, as stated, fails in its count: the range \<^verbatim>\<open>range(-r//2 + 1, r//2 + 1)\<close> holds \<open>r\<close>
  offsets, not \<open>2r\<close>. At radius 4 the offsets are \<open>-1, 0, 1, 2\<close>.
\<close>

theorem precomputed_offsets_counterexample:
  "interp_points (precomputed_src 4) = [- 1, 0, 1, 2] \<and>
   length (interp_points (precomputed_src 4)) \<noteq> nat (2 * radius (precomputed_src 4))"
  by (simp add: interp_points_precomputed precomputed_src_facts range_py_def upto_rec1)

text \<open>
  Claim C8, amended. For the precomputed scheme the offsets of an axis are exactly the
  integers \<open>i\<close> with \<open>(-r) div 2 + 1 \<le> i < r div 2 + 1\<close> (floor division), in increasing
  order and without repetition; there are \<open>r\<close> of them (none for a negative \<open>r\<close>). The weight
  list of every axis consists of one coefficient-table lookup per offset, in the order of
  the offsets.
\<close>

theorem precomputed_offsets:
  assumes K: "kind itp = PrecomputedInterpolator" and D: "distinct (gdim itp)"
    and T: "2 \<le> length (sf_interpolation_coeffs_dimensions (sfunction itp))"
  shows "(\<forall>i. i \<in> set (interp_points itp)
              \<longleftrightarrow> (- radius itp) div 2 + 1 \<le> i \<and> i < radius itp div 2 + 1) \<and>
         sorted (interp_points itp) \<and> distinct (interp_points itp) \<and>
         length (interp_points itp) = nat (radius itp) \<and>
         (\<exists>w. weights itp = Inr w \<and>
            (\<forall>di < grid_dim itp. \<exists>ws. dict_get w (gdim itp ! di) = Inr ws \<and>
               length ws = nat (radius itp) \<and>
               map Inr ws = map (icoeffs_lookup itp di) (interp_points itp)))"
proof (intro conjI)
  show "\<forall>i. i \<in> set (interp_points itp)
              \<longleftrightarrow> (- radius itp) div 2 + 1 \<le> i \<and> i < radius itp div 2 + 1"
    using K by (simp add: interp_points_precomputed)
  show "sorted (interp_points itp)"
    using K by (simp add: interp_points_precomputed range_py_def)
  show "distinct (interp_points itp)" by simp
  show "length (interp_points itp) = nat (radius itp)"
    by (rule length_interp_points_precomputed [OF K])
  let ?w = "map (\<lambda>(di, d). (d, map (table_entry itp di) (interp_points itp)))
                (enumerate 0 (gdim itp))"
  have "weights itp = Inr ?w" by (rule weights_precomputed [OF K D T])
  moreover have "\<forall>di < grid_dim itp. \<exists>ws. dict_get ?w (gdim itp ! di) = Inr ws \<and>
               length ws = nat (radius itp) \<and>
               map Inr ws = map (icoeffs_lookup itp di) (interp_points itp)"
    using map_of_precomputed [OF D] length_interp_points_precomputed [OF K]
    by (simp add: dict_get_def grid_dim_def gdim_def icoeffs_lookup_closed [OF T] comp_def)
  ultimately show "\<exists>w. weights itp = Inr w \<and>
            (\<forall>di < grid_dim itp. \<exists>ws. dict_get w (gdim itp ! di) = Inr ws \<and>
               length ws = nat (radius itp) \<and>
               map Inr ws = map (icoeffs_lookup itp di) (interp_points itp))"
    by blast
qed

theorem precomputed_offsets_witness:
  "kind (precomputed_src 4) = PrecomputedInterpolator \<and> distinct (gdim (precomputed_src 4)) \<and>
   2 \<le> length (sf_interpolation_coeffs_dimensions (sfunction (precomputed_src 4))) \<and>
   length (interp_points (precomputed_src 4)) = 4 \<and>
   (\<exists>w. weights (precomputed_src 4) = Inr w \<and>
      (\<forall>di < grid_dim (precomputed_src 4). \<exists>ws.
         dict_get w (gdim (precomputed_src 4) ! di) = Inr ws \<and> length ws = 4 \<and>
         map Inr ws = map (icoeffs_lookup (precomputed_src 4) di) (interp_points (precomputed_src 4))))"
  using precomputed_src_facts [of 4] precomputed_offsets [OF precomputed_src_facts(1-3), of 4]
  by simp

section \<open>Guarded indices\<close>

text \<open>
  Claim C1. For a well-formed sparse function the index builder returns its substitutions
  and temporaries, and for every axis \<open>j\<close> and every position \<open>ri\<close> of the offset range:
  the temporaries contain the equation that defines the index symbol as the base position
  of the axis plus the offset; the guarded dimension of that symbol is an indirect
  conditional dimension on the sparse dimension whose condition is the conjunction of
  \<open>symbolic_min - r \<le> index\<close> and \<open>index \<le> symbolic_max + r\<close>; and that condition holds
  exactly for the indices in the closed interval, so it is false for every index outside.
  For every neighbour and every operand, the substitution replaces the operand by the
  operand with every grid dimension rebound to one of these guarded dimensions minus the
  operand's origin on that axis; when the origins mention no grid dimension, no grid
  dimension is left among the indices of the substituted operand, and in any expression
  whose operands are all among the given ones, after the substitution of a neighbour no
  field access has a grid dimension among its indices.
\<close>

theorem guarded_indices:
  assumes W: "well_formed itp"
  shows "\<exists>idx_subs temps.
           interpolation_indices itp variables offset field_offset ids = Inr (idx_subs, temps) \<and>
           (\<forall>j < grid_dim itp. \<forall>ri < length (interp_points itp).
              Eq (Symbol (index_name itp (gdim itp ! j) ri) None)
                 (Add (sf_coordinate_indices (sfunction itp) ! j) (Num (interp_points itp ! ri)))
                 ids \<in> set temps \<and>
              guarded_dim itp (gdim itp ! j) ri
                = ConditionalDimension (index_name itp (gdim itp ! j) ri)
                    (sf_sparse_dim (sfunction itp))
                    (And [And [Ge (Symbol (index_name itp (gdim itp ! j) ri) None)
                                  (Sub (Symbolic_min (gdim itp ! j)) (Num (radius itp)))],
                          And [Le (Symbol (index_name itp (gdim itp ! j) ri) None)
                                  (Add (Symbolic_max (gdim itp ! j)) (Num (radius itp)))]])
                    True \<and>
              (\<forall>env. holds env (condition itp (gdim itp ! j)
                                  (Symbol (index_name itp (gdim itp ! j) ri) None))
                     \<longleftrightarrow> env (Symbolic_min (gdim itp ! j)) - of_int (radius itp)
                           \<le> env (Symbol (index_name itp (gdim itp ! j) ri) None) \<and>
                         env (Symbol (index_name itp (gdim itp ! j) ri) None)
                           \<le> env (Symbolic_max (gdim itp ! j)) + of_int (radius itp))) \<and>
           length idx_subs = length (nd_points itp) \<and>
           (\<forall>k < length (nd_points itp). \<forall>v \<in> set variables.
              dict_get (idx_subs ! k) v
                = Inr (subs (dimension_subs itp v (nd_points itp ! k)) v) \<and>
              map fst (dimension_subs itp v (nd_points itp ! k)) = gdim itp \<and>
              (\<forall>(d, e) \<in> set (dimension_subs itp v (nd_points itp ! k)).
                 \<exists>ri < length (interp_points itp).
                   e = Sub (guarded_dim itp d ri) (origin_get v d)) \<and>
              ((\<forall>d \<in> set (gdim itp). dims_of (origin_get v d) \<inter> set (gdim itp) = {})
               \<longrightarrow> dims_of (subs (dimension_subs itp v (nd_points itp ! k)) v)
                     \<inter> set (gdim itp) = {})) \<and>
           (\<forall>k < length (nd_points itp). \<forall>e.
              set (retrieve_function_carriers e) \<subseteq> set variables \<longrightarrow>
              (\<forall>v \<in> set variables. \<forall>d \<in> set (gdim itp).
                 dims_of (origin_get v d) \<inter> set (gdim itp) = {}) \<longrightarrow>
              access_dims (xreplace (idx_subs ! k) e) \<inter> set (gdim itp) = {})"
proof -
  from coeff_temps_ok [OF W] obtain ct where ct: "coeff_temps itp ids = Inr ct" by blast
  let ?idx = "map (neighbour_subs itp variables) (nd_points itp)"
  let ?temps = "positions itp ids @ ct @ index_eqs itp ids"
  have D: "distinct (gdim itp)"
    and L: "length (sf_coordinate_indices (sfunction itp)) = length (gdim itp)"
    using W by (simp_all add: well_formed_def)
  have I: "interpolation_indices itp variables offset field_offset ids = Inr (?idx, ?temps)"
    by (rule interpolation_indices_closed [OF W ct])
  have A: "Eq (Symbol (index_name itp (gdim itp ! j) ri) None)
              (Add (sf_coordinate_indices (sfunction itp) ! j) (Num (interp_points itp ! ri)))
              ids \<in> set ?temps"
    if "j < grid_dim itp" "ri < length (interp_points itp)" for j ri
    using index_eq_in_index_eqs [of j itp ri ids] that L
    by (simp add: grid_dim_def gdim_def index_eq_def)
  have B: "guarded_dim itp d ri
           = ConditionalDimension (index_name itp d ri) (sf_sparse_dim (sfunction itp))
               (And [And [Ge (Symbol (index_name itp d ri) None)
                             (Sub (Symbolic_min d) (Num (radius itp)))],
                     And [Le (Symbol (index_name itp d ri) None)
                             (Add (Symbolic_max d) (Num (radius itp)))]])
               True" for d ri
    by (simp add: guarded_dim_def condition_def Let_def)
  have C: "dict_get (?idx ! k) v = Inr (subs (dimension_subs itp v (nd_points itp ! k)) v) \<and>
           map fst (dimension_subs itp v (nd_points itp ! k)) = gdim itp \<and>
           (\<forall>(d, e) \<in> set (dimension_subs itp v (nd_points itp ! k)).
              \<exists>ri < length (interp_points itp).
                e = Sub (guarded_dim itp d ri) (origin_get v d)) \<and>
           ((\<forall>d \<in> set (gdim itp). dims_of (origin_get v d) \<inter> set (gdim itp) = {})
            \<longrightarrow> dims_of (subs (dimension_subs itp v (nd_points itp ! k)) v)
                  \<inter> set (gdim itp) = {})"
    if k: "k < length (nd_points itp)" and v: "v \<in> set variables" for k v
  proof -
    let ?p = "nd_points itp ! k"
    let ?s = "dimension_subs itp v ?p"
    have p: "?p \<in> set (nd_points itp)" using k by (rule nth_mem)
    then have lp: "length ?p = length (gdim itp)"
      by (simp add: set_nd_points grid_dim_def gdim_def)
    have keys: "map fst ?s = gdim itp" by (rule fst_dimension_subs [OF lp])
    have ent: "\<exists>ri < length (interp_points itp). e = Sub (guarded_dim itp d ri) (origin_get v d)"
      if "(d, e) \<in> set ?s" for d e
      using dimension_subs_entries [OF p that] .
    have "dict_get (?idx ! k) v = Inr (subs ?s v)"
      using k v
      by (simp add: neighbour_subs_def dict_get_dict_of_graph dict_of_dimension_subs [OF D lp])
    moreover have "dims_of (subs ?s v) \<inter> set (gdim itp) = {}"
      if org: "\<forall>d \<in> set (gdim itp). dims_of (origin_get v d) \<inter> set (gdim itp) = {}"
    proof -
      have f: "fst ` set ?s = set (gdim itp)" by (simp add: keys [symmetric])
      have vals: "dims_of x \<inter> set (gdim itp) = {}" if "x \<in> snd ` set ?s" for x
      proof -
        from that obtain d where de: "(d, x) \<in> set ?s" by force
        then have "d \<in> fst ` set ?s" by force
        then have "d \<in> set (gdim itp)" by (simp only: f)
        moreover from ent [OF de] obtain ri where "x = Sub (guarded_dim itp d ri) (origin_get v d)"
          by blast
        ultimately show ?thesis using org by (simp add: guarded_dim_def)
      qed
      show ?thesis
      proof (rule ccontr)
        assume "dims_of (subs ?s v) \<inter> set (gdim itp) \<noteq> {}"
        then obtain d where d1: "d \<in> dims_of (subs ?s v)" and d2: "d \<in> set (gdim itp)"
          by blast
        from d1 dims_of_subs [of ?s v]
        have "d \<in> dims_of v - fst ` set ?s \<or> d \<in> (\<Union>x \<in> snd ` set ?s. dims_of x)"
          by blast
        then show False
        proof
          assume "d \<in> dims_of v - fst ` set ?s"
          then show False using d2 by (simp add: f)
        next
          assume "d \<in> (\<Union>x \<in> snd ` set ?s. dims_of x)"
          then obtain x where "x \<in> snd ` set ?s" "d \<in> dims_of x" by blast
          then show False using vals [of x] d2 by blast
        qed
      qed
    qed
    moreover have "\<forall>(d, e) \<in> set ?s.
              \<exists>ri < length (interp_points itp).
                e = Sub (guarded_dim itp d ri) (origin_get v d)"
      using ent by (simp add: case_prod_unfold)
    ultimately show ?thesis using keys by (intro conjI impI) assumption+
  qed
  have H: "holds env (condition itp d (Symbol (index_name itp d ri) None))
           \<longleftrightarrow> env (Symbolic_min d) - of_int (radius itp)
                 \<le> env (Symbol (index_name itp d ri) None) \<and>
               env (Symbol (index_name itp d ri) None)
                 \<le> env (Symbolic_max d) + of_int (radius itp)" for env d ri
    by (rule holds_condition)
  have len: "length ?idx = length (nd_points itp)" by simp
  have X: "access_dims (xreplace (?idx ! k) e) \<inter> set (gdim itp) = {}"
    if k: "k < length (nd_points itp)"
      and e: "set (retrieve_function_carriers e) \<subseteq> set variables"
      and org: "\<forall>v \<in> set variables. \<forall>d \<in> set (gdim itp).
                  dims_of (origin_get v d) \<inter> set (gdim itp) = {}" for k e
    using guarded_after_xreplace [OF D nth_mem [OF k] e org] k by simp
  show ?thesis
    apply (rule exI [of _ ?idx], rule exI [of _ ?temps], intro conjI)
        apply (rule I)
       apply (intro allI impI conjI; rule A B H; assumption)
      apply (rule len)
     apply (intro allI impI ballI; rule C; assumption)
    apply (intro allI impI; rule X; assumption)
    done
qed

theorem guarded_indices_witness:
  "well_formed linear_src \<and>
   (\<exists>idx_subs temps.
      interpolation_indices linear_src [field_u] 0 [] [] = Inr (idx_subs, temps) \<and>
      length idx_subs = length (nd_points linear_src))"
proof -
  from guarded_indices [OF linear_src_well_formed, of "[field_u]" 0 "[]" "[]"]
  obtain idx_subs temps where
    "interpolation_indices linear_src [field_u] 0 [] [] = Inr (idx_subs, temps)"
    "length idx_subs = length (nd_points linear_src)"
    by (elim exE conjE) (rule that; assumption)
  then show ?thesis using linear_src_well_formed by blast
qed

section \<open>Weights and substitutions, neighbour by neighbour\<close>

text \<open>
  Claim C2, as stated for every radius, fails: for the linear scheme at radius 3 the
  substitution list is built, one dictionary per neighbour, but the weight list is not,
  because an offset beyond 1 indexes past the two weights of an axis and raises
  \<^verbatim>\<open>IndexError\<close>.
\<close>

theorem weights_pair_with_substitutions_counterexample:
  "\<not> (\<exists>ws idx_subs temps.
        interpolation_coeffs \<lparr> kind = LinearInterpolator, sfunction = src \<lparr> sf_r := 3 \<rparr> \<rparr> = Inr ws \<and>
        interpolation_indices \<lparr> kind = LinearInterpolator, sfunction = src \<lparr> sf_r := 3 \<rparr> \<rparr>
          [field_u] 0 [] [] = Inr (idx_subs, temps) \<and>
        length ws = length idx_subs)"
proof -
  have "interpolation_coeffs \<lparr> kind = LinearInterpolator, sfunction = src \<lparr> sf_r := 3 \<rparr> \<rparr>
        = Inl IndexError"
    by code_simp
  then show ?thesis by simp
qed

text \<open>
  Claim C2, amended. For every grid dimensionality, and every radius at which the scheme
  has one weight per offset on every axis (the precomputed scheme at any radius, the
  linear scheme at radius 1), the weight list and the substitution list are both produced
  and have the same length, the number of offsets to the power of the grid dimension.
  Both are generated by one pass over the same neighbour tuples in product order, the
  tuples are pairwise distinct and are exactly the tuples of offsets of the right length,
  and for every \<open>k\<close> weight \<open>k\<close> and substitution \<open>k\<close> belong to the same tuple: on every axis
  both take the entry at the same list position, the one selected by the offset.
\<close>

theorem weights_pair_with_substitutions:
  assumes W: "well_formed itp" and O: "one_weight_per_offset itp"
  shows "\<exists>w ws idx_subs temps.
           weights itp = Inr w \<and>
           (\<forall>d \<in> set (gdim itp). length (weight_list w d) = length (interp_points itp)) \<and>
           interpolation_coeffs itp = Inr ws \<and>
           interpolation_indices itp variables offset field_offset ids = Inr (idx_subs, temps) \<and>
           length ws = length idx_subs \<and>
           length ws = length (interp_points itp) ^ grid_dim itp \<and>
           distinct (nd_points itp) \<and>
           set (nd_points itp) = {p. length p = grid_dim itp \<and> set p \<subseteq> set (interp_points itp)} \<and>
           (\<forall>k < length ws.
              ws ! k = neighbour_weight itp w (nd_points itp ! k) \<and>
              idx_subs ! k = neighbour_subs itp variables (nd_points itp ! k))"
proof -
  from weights_ok [OF W O] obtain w where Wt: "weights itp = Inr w"
    and L: "\<forall>d \<in> set (gdim itp). \<exists>l. map_of w d = Some l \<and> length l = length (interp_points itp)"
    by blast
  from coeff_temps_ok [OF W] obtain ct where ct: "coeff_temps itp ids = Inr ct" by blast
  let ?ws = "map (neighbour_weight itp w) (nd_points itp)"
  let ?idx = "map (neighbour_subs itp variables) (nd_points itp)"
  let ?temps = "positions itp ids @ ct @ index_eqs itp ids"
  have a: "\<forall>d \<in> set (gdim itp). length (weight_list w d) = length (interp_points itp)"
  proof
    fix d assume "d \<in> set (gdim itp)"
    with L obtain l where "map_of w d = Some l" "length l = length (interp_points itp)" by blast
    then show "length (weight_list w d) = length (interp_points itp)"
      by (simp add: weight_list_def)
  qed
  have b: "interpolation_coeffs itp = Inr ?ws"
    by (rule interpolation_coeffs_neighbour [OF Wt L])
  have c: "interpolation_indices itp variables offset field_offset ids = Inr (?idx, ?temps)"
    by (rule interpolation_indices_closed [OF W ct])
  have d: "length ?ws = length ?idx" by simp
  have e: "length ?ws = length (interp_points itp) ^ grid_dim itp"
    by (simp add: length_nd_points)
  have f: "distinct (nd_points itp)" by simp
  have g: "set (nd_points itp) = {p. length p = grid_dim itp \<and> set p \<subseteq> set (interp_points itp)}"
    by (rule set_nd_points)
  have h: "\<forall>k < length ?ws.
              ?ws ! k = neighbour_weight itp w (nd_points itp ! k) \<and>
              ?idx ! k = neighbour_subs itp variables (nd_points itp ! k)"
    by simp
  show ?thesis
    apply (rule exI [of _ w], rule exI [of _ ?ws], rule exI [of _ ?idx], rule exI [of _ ?temps])
    apply (intro conjI)
            apply (rule Wt)
           apply (rule a)
          apply (rule b)
         apply (rule c)
        apply (rule d)
       apply (rule e)
      apply (rule f)
     apply (rule g)
    apply (rule h)
    done
qed

theorem weights_pair_with_substitutions_witness:
  "well_formed (precomputed_src 3) \<and> one_weight_per_offset (precomputed_src 3) \<and>
   (\<exists>ws idx_subs temps.
      interpolation_coeffs (precomputed_src 3) = Inr ws \<and>
      interpolation_indices (precomputed_src 3) [field_u] 0 [] [] = Inr (idx_subs, temps) \<and>
      length ws = length idx_subs)"
proof -
  from weights_pair_with_substitutions [OF precomputed_src_ok, of 3 "[field_u]" 0 "[]" "[]"]
  obtain ws idx_subs temps where
    "interpolation_coeffs (precomputed_src 3) = Inr ws"
    "interpolation_indices (precomputed_src 3) [field_u] 0 [] [] = Inr (idx_subs, temps)"
    "length ws = length idx_subs"
    by (elim exE conjE) (rule that; assumption)
  then show ?thesis using precomputed_src_ok [of 3] by blast
qed

section \<open>The equations of interpolate\<close>



section \<open>The equations of inject\<close>



section \<open>Expressions without operands\<close>

text \<open>
  Claim C9. When the evaluated expression references no function carrier, forcing the
  operation returned by \<^verbatim>\<open>interpolate\<close> fails: the lookup of the first operand raises
  \<^verbatim>\<open>IndexError\<close>, and no equation list, partial or complete, is returned.
\<close>

theorem interpolate_without_operands:
  assumes "retrieve_function_carriers (evaluate e) = []"
  shows "evaluate_op (interpolate itp e offset increment self_subs ds) = Inl IndexError \<and>
         \<not> (\<exists>eqs. evaluate_op (interpolate itp e offset increment self_subs ds) = Inr eqs)"
  using assms
  by (simp add: evaluate_op_def interpolate_def interpolate_callback_def Let_def getitem_empty)

theorem interpolate_without_operands_witness:
  "retrieve_function_carriers (evaluate (Generic (Num 2))) = [] \<and>
   evaluate_op (interpolate linear_src (Generic (Num 2)) 0 False [] None) = Inl IndexError"
proof -
  have h: "retrieve_function_carriers (evaluate (Generic (Num 2))) = []" by simp
  from interpolate_without_operands [OF h, of linear_src 0 False "[]" None] h
  show ?thesis by simp
qed

section \<open>Independence of the offset argument\<close>

text \<open>
  Claim C10. The equations produced by \<^verbatim>\<open>interpolate\<close> and by \<^verbatim>\<open>inject\<close> do not depend on
  the argument \<^verbatim>\<open>offset\<close>, and the index builder depends neither on \<^verbatim>\<open>offset\<close> nor on
  \<^verbatim>\<open>field_offset\<close>: two calls that differ only in these values force to the same result.
\<close>

theorem offset_independence:
  "evaluate_op (interpolate itp e offset increment self_subs ds)
     = evaluate_op (interpolate itp e offset' increment self_subs ds) \<and>
   evaluate_op (inject itp field e offset ds) = evaluate_op (inject itp field e offset' ds) \<and>
   interpolation_indices itp variables offset field_offset ids
     = interpolation_indices itp variables offset' field_offset' ids"
  by (simp add: evaluate_op_def interpolate_def inject_def interpolate_callback_def
        inject_callback_def interpolation_indices_def)

section \<open>The additive combinator\<close>

text \<open>
  Claim C6. \<open>op1 + op2\<close> is the flat two-element list of the two operations, and forcing
  it gives the equations of \<open>op1\<close> followed by those of \<open>op2\<close> (or the first error).
  Combining three or more operands, each a deferred operation or a raw list of equations,
  from left to right gives the flat list of all of them in their order; forcing that list
  is forcing the operands one after the other and concatenating. Combination is
  associative: \<open>(x + y) + z\<close> and \<open>x + (y + z)\<close> are the same flat list.
\<close>

theorem add_is_flat_concatenation:
  "add_op op1 (Operation op2) = List [Operation op1, Operation op2] \<and>
   force (add_op op1 (Operation op2))
     = bind_err (evaluate_op op1) (\<lambda>a. bind_err (evaluate_op op2) (\<lambda>b. Inr (a @ b))) \<and>
   (list_all operand (a # b # bs) \<longrightarrow>
      combine a (b # bs) = Inr (List (flatten (a # b # bs))) \<and>
      list_all is_leaf (flatten (a # b # bs)) \<and>
      force (List (flatten (a # b # bs))) = force_all (a # b # bs)) \<and>
   (operand x \<and> operand y \<and> operand z \<longrightarrow>
      bind_err (py_add x y) (\<lambda>u. py_add u z) = bind_err (py_add y z) (\<lambda>v. py_add x v) \<and>
      bind_err (py_add x y) (\<lambda>u. py_add u z) = Inr (List (flatten [x, y, z])))"
proof (intro conjI impI)
  show "add_op op1 (Operation op2) = List [Operation op1, Operation op2]"
    by (simp add: add_op_def)
  show "force (add_op op1 (Operation op2))
     = bind_err (evaluate_op op1) (\<lambda>a. bind_err (evaluate_op op2) (\<lambda>b. Inr (a @ b)))"
    by (cases "evaluate_op op1"; cases "evaluate_op op2") (simp_all add: add_op_def)
next
  assume "list_all operand (a # b # bs)"
  then show "combine a (b # bs) = Inr (List (flatten (a # b # bs)))"
    by (rule combine_operands)
next
  show "list_all is_leaf (flatten (a # b # bs))" by (rule is_leaf_flatten)
  show "force (List (flatten (a # b # bs))) = force_all (a # b # bs)"
    by (simp only: force_List force_all_flatten)
next
  assume "operand x \<and> operand y \<and> operand z"
  then show "bind_err (py_add x y) (\<lambda>u. py_add u z) = bind_err (py_add y z) (\<lambda>v. py_add x v)"
    by (simp add: py_add_assoc)
next
  assume "operand x \<and> operand y \<and> operand z"
  then show "bind_err (py_add x y) (\<lambda>u. py_add u z) = Inr (List (flatten [x, y, z]))"
    by (simp add: py_add_assoc)
qed

theorem add_is_flat_concatenation_witness:
  "list_all operand
     [Operation (interpolate linear_src (Generic field_u) 0 False [] None),
      List [Expr (Eq (Symbol ''a'' None) (Num 0) [])],
      Operation (inject linear_src field_u (Generic (Symbol ''v'' None)) 0 None)] \<and>
   combine (Operation (interpolate linear_src (Generic field_u) 0 False [] None))
     [List [Expr (Eq (Symbol ''a'' None) (Num 0) [])],
      Operation (inject linear_src field_u (Generic (Symbol ''v'' None)) 0 None)]
   = Inr (List [Operation (interpolate linear_src (Generic field_u) 0 False [] None),
                Expr (Eq (Symbol ''a'' None) (Num 0) []),
                Operation (inject linear_src field_u (Generic (Symbol ''v'' None)) 0 None)])"
proof -
  have h: "list_all operand
     [Operation (interpolate linear_src (Generic field_u) 0 False [] None),
      List [Expr (Eq (Symbol ''a'' None) (Num 0) [])],
      Operation (inject linear_src field_u (Generic (Symbol ''v'' None)) 0 None)]"
    by simp
  from add_is_flat_concatenation
         [where a = "Operation (interpolate linear_src (Generic field_u) 0 False [] None)"
            and b = "List [Expr (Eq (Symbol ''a'' None) (Num 0) [])]"
            and bs = "[Operation (inject linear_src field_u (Generic (Symbol ''v'' None)) 0 None)]"]
  have "combine (Operation (interpolate linear_src (Generic field_u) 0 False [] None))
     [List [Expr (Eq (Symbol ''a'' None) (Num 0) [])],
      Operation (inject linear_src field_u (Generic (Symbol ''v'' None)) 0 None)]
   = Inr (List (flatten
       [Operation (interpolate linear_src (Generic field_u) 0 False [] None),
        List [Expr (Eq (Symbol ''a'' None) (Num 0) [])],
        Operation (inject linear_src field_u (Generic (Symbol ''v'' None)) 0 None)]))"
    using h by blast
  with h show ?thesis by simp
qed

end
